theory Spec2Isabelle
  imports Complex_Main "HOL-Library.Word"
begin

section \<open>Faults\<close>

text \<open>
  The sources abort through \<open>assert\<close>; a read of a default-constructed (empty) future
  and an integer remainder by zero have no defined result. Each of them is a value of
  \<open>fault\<close>, and a function that can reach one returns \<open>fault + result\<close>.
\<close>

datatype fault =
    Uneven_partitioning
  | Launch_domain_mismatch
  | Subgrid_not_row_multiple
  | Empty_future
  | Division_by_zero

section \<open>Rectangles of the index space\<close>

text \<open>
  A \<open>Rect<1>\<close> is the pair of its inclusive bounds \<open>(lo, hi)\<close>; it is empty when
  \<open>hi < lo\<close>. \<open>rect_volume\<close> is \<open>Rect<1>::volume()\<close>, \<open>rect_indices\<close> the points it
  holds.
\<close>

type_synonym rect1 = "int \<times> int"

definition rect_volume :: "rect1 \<Rightarrow> nat" where
  "rect_volume b = (if snd b < fst b then 0 else nat (snd b - fst b + 1))"

definition rect_indices :: "rect1 \<Rightarrow> int set" where
  "rect_indices b = {fst b .. snd b}"

section \<open>Symmetric Gauss-Seidel (lgncg/src/comp-symgs.h)\<close>

subsection \<open>The task's view of the matrix and the vectors\<close>

text \<open>
  \<open>symgsTask\<close> works on raw pointers: \<open>avp\<close> (packed values), \<open>aip\<close> (packed column
  indices), \<open>azp\<close> (non-zeros per row, \<open>uint8_t\<close>), \<open>adp\<close> (cached diagonal), \<open>rp\<close>
  (right-hand side) and \<open>xp\<close> (all of \<open>x\<close>). A pointer is the function from the
  \<open>int64_t\<close> offset to the value stored there. The scalar type \<open>'a\<close> stands for
  \<open>double\<close>; where a statement needs arithmetic laws it is a field, so rounding is
  outside the model.
\<close>

record 'a CGTaskArgs =
  sa_nCols :: nat
  sa_vals_sgb :: rect1
  avp :: "int \<Rightarrow> 'a"
  aip :: "int \<Rightarrow> int"
  azp :: "int \<Rightarrow> 8 word"
  adp :: "int \<Rightarrow> 'a"
  rp :: "int \<Rightarrow> 'a"

text \<open>\<open>cVals = avp + i * lNCols\<close>, \<open>cIndx = aip + i * lNCols\<close>, \<open>cnnz = azp[i]\<close>.\<close>

definition cVals :: "'a CGTaskArgs \<Rightarrow> int \<Rightarrow> nat \<Rightarrow> 'a" where
  "cVals M i j = avp M (i * int (sa_nCols M) + int j)"

definition cIndx :: "'a CGTaskArgs \<Rightarrow> int \<Rightarrow> nat \<Rightarrow> int" where
  "cIndx M i j = aip M (i * int (sa_nCols M) + int j)"

definition cnnz :: "'a CGTaskArgs \<Rightarrow> int \<Rightarrow> nat" where
  "cnnz M i = unat (azp M i)"

subsection \<open>One row\<close>

text \<open>
  The body of both row loops:
  \<^verbatim>\<open>
    double sum = rp[i];
    for (int64_t j = 0; j < cnnz; ++j) {
        int64_t curCol = cIndx[j];
        sum -= cVals[j] * xp[curCol];
    }
    sum += xp[i] * curDiag;
    xp[i] = sum / curDiag;
  \<close>
\<close>

definition symgs_inner :: "'a::field CGTaskArgs \<Rightarrow> (int \<Rightarrow> 'a) \<Rightarrow> int \<Rightarrow> 'a \<Rightarrow> 'a" where
  "symgs_inner M xp i s0 =
     fold (\<lambda>j s. s - cVals M i j * xp (cIndx M i j)) [0..<cnnz M i] s0"

definition symgs_row :: "'a::field CGTaskArgs \<Rightarrow> int \<Rightarrow> (int \<Rightarrow> 'a) \<Rightarrow> (int \<Rightarrow> 'a)" where
  "symgs_row M i xp =
     (let curDiag = adp M i;
          s = rp M i;
          s = symgs_inner M xp i s;
          s = s + xp i * curDiag
      in xp(i := s / curDiag))"

subsection \<open>The task\<close>

text \<open>
  The rows a task visits, in order: \<open>if (1 == sweep)\<close> runs \<open>i = 0 .. lNRows - 1\<close> (the
  branch the source labels "forward sweep"), the \<open>else\<close> branch runs
  \<open>i = lNRows - 1 .. 0\<close> ("back sweep").
\<close>

definition symgsTask_rows :: "int \<Rightarrow> nat \<Rightarrow> int list" where
  "symgsTask_rows sweep lNRows =
     (if 1 = sweep then map int [0..<lNRows] else rev (map int [0..<lNRows]))"

definition symgs_sweep :: "'a::field CGTaskArgs \<Rightarrow> int list \<Rightarrow> (int \<Rightarrow> 'a) \<Rightarrow> (int \<Rightarrow> 'a)" where
  "symgs_sweep M rows xp = fold (symgs_row M) rows xp"

text \<open>
  \<open>assert(0 == myGridBounds.volume() % targs.sa.nCols)\<close>, then
  \<open>lNRows = myGridBounds.volume() / targs.sa.nCols\<close> and the sweep chosen by the task
  argument. (The assertions on the number of regions and on dense layouts concern the
  runtime's mapping and are not modelled.)
\<close>

definition symgsTask :: "'a::field CGTaskArgs \<Rightarrow> int \<Rightarrow> (int \<Rightarrow> 'a) \<Rightarrow> fault + (int \<Rightarrow> 'a)" where
  "symgsTask M sweep xp =
     (if sa_nCols M = 0 then Inl Division_by_zero
      else if rect_volume (sa_vals_sgb M) mod sa_nCols M \<noteq> 0 then Inl Subgrid_not_row_multiple
      else Inr (symgs_sweep M
                  (symgsTask_rows sweep (rect_volume (sa_vals_sgb M) div sa_nCols M)) xp))"

subsection \<open>The launcher\<close>

text \<open>
  \<open>symgs\<close> sees the three launch domains and builds one argument record per point of
  the launch domain. \<open>execute_index_space\<close> runs \<open>symgsTask\<close> once per point; the
  points are taken in increasing order here (the executor is free to choose).
\<close>

record 'a symgs_call =
  vals_lDom_volume :: nat
  x_lDom_volume :: nat
  r_lDom_volume :: nat
  argMap :: "nat \<Rightarrow> 'a CGTaskArgs"

fun run_points :: "(nat \<Rightarrow> 'a::field CGTaskArgs) \<Rightarrow> int \<Rightarrow> nat list \<Rightarrow> (int \<Rightarrow> 'a)
    \<Rightarrow> fault + (int \<Rightarrow> 'a)" where
  "run_points am sweep [] xp = Inr xp"
| "run_points am sweep (pt # pts) xp =
     (case symgsTask (am pt) sweep xp of
        Inl e \<Rightarrow> Inl e
      | Inr xp' \<Rightarrow> run_points am sweep pts xp')"

definition execute_index_space :: "'a::field symgs_call \<Rightarrow> int \<Rightarrow> (int \<Rightarrow> 'a) \<Rightarrow> fault + (int \<Rightarrow> 'a)" where
  "execute_index_space L sweepi xp = run_points (argMap L) sweepi [0..<vals_lDom_volume L] xp"

text \<open>\<open>for (int sweepi = 0; sweepi < 2; ++sweepi)\<close>: the values the task argument takes.\<close>

definition symgs_sweepis :: "int list" where
  "symgs_sweepis = [0, 1]"

fun run_sweeps :: "'a::field symgs_call \<Rightarrow> int list \<Rightarrow> (int \<Rightarrow> 'a) \<Rightarrow> fault + (int \<Rightarrow> 'a)" where
  "run_sweeps L [] xp = Inr xp"
| "run_sweeps L (sweepi # rest) xp =
     (case execute_index_space L sweepi xp of
        Inl e \<Rightarrow> Inl e
      | Inr xp' \<Rightarrow> run_sweeps L rest xp')"

definition symgs :: "'a::field symgs_call \<Rightarrow> (int \<Rightarrow> 'a) \<Rightarrow> fault + (int \<Rightarrow> 'a)" where
  "symgs L xp =
     (if \<not> (vals_lDom_volume L = x_lDom_volume L \<and> x_lDom_volume L = r_lDom_volume L)
      then Inl Launch_domain_mismatch
      else run_sweeps L symgs_sweepis xp)"

text \<open>The matrix a packed row stands for, and the columns it stores.\<close>

definition A_entry :: "'a::field CGTaskArgs \<Rightarrow> int \<Rightarrow> int \<Rightarrow> 'a" where
  "A_entry M i c = sum_list (map (cVals M i) (filter (\<lambda>j. cIndx M i j = c) [0..<cnnz M i]))"

definition row_cols :: "'a CGTaskArgs \<Rightarrow> int \<Rightarrow> int set" where
  "row_cols M i = set (map (cIndx M i) [0..<cnnz M i])"

text \<open>
  The packed values hold \<open>nCols\<close> entries per row, so the rows of a task start at the
  row \<open>lo / nCols\<close> of the matrix, for \<open>lo\<close> the first offset of its sub-grid of
  \<open>vals\<close>. Local row \<open>i\<close> of the task is row \<open>first_row + i\<close> of the matrix; the
  column indices in \<open>aip\<close> and the vector \<open>xp\<close> are those of the whole matrix ("every
  task gets all of x").
\<close>

definition first_row :: "'a CGTaskArgs \<Rightarrow> int" where
  "first_row M = fst (sa_vals_sgb M) div int (sa_nCols M)"

text \<open>
  The update the specification gives for the matrix row held as local row \<open>i\<close>, over a
  set \<open>C\<close> of columns: \<open>x[g] := (r[g] - (\<Sum> c \<noteq> g. A[g][c] * x[c])) / A[g][g]\<close> for
  \<open>g = first_row + i\<close>.
\<close>

definition gs_update :: "'a::field CGTaskArgs \<Rightarrow> int set \<Rightarrow> int \<Rightarrow> (int \<Rightarrow> 'a) \<Rightarrow> (int \<Rightarrow> 'a)" where
  "gs_update M C i xp =
     (let g = first_row M + i
      in xp(g := (rp M i - (\<Sum>c\<in>C - {g}. A_entry M i c * xp c)) / A_entry M i g))"

text \<open>A single-task example: the matrix \<open>[[2, 1], [1, 2]]\<close>, right-hand side \<open>[3, 3]\<close>.\<close>

definition ex_args :: "rat CGTaskArgs" where
  "ex_args = \<lparr> sa_nCols = 2, sa_vals_sgb = (0, 3),
       avp = (\<lambda>k. [2, 1, 1, 2] ! nat k),
       aip = (\<lambda>k. [0, 1, 0, 1] ! nat k),
       azp = (\<lambda>k. 2),
       adp = (\<lambda>k. 2),
       rp = (\<lambda>k. 3) \<rparr>"

definition ex_call :: "rat symgs_call" where
  "ex_call = \<lparr> vals_lDom_volume = 1, x_lDom_volume = 1, r_lDom_volume = 1,
       argMap = (\<lambda>pt. ex_args) \<rparr>"

text \<open>
  A two-task example: the block-diagonal matrix
  \<open>[[2, 1, 0, 0], [1, 2, 0, 0], [0, 0, 2, 1], [0, 0, 1, 2]]\<close> with right-hand side
  \<open>[3, 3, 3, 3]\<close>, two packed entries per row, split into two sub-grids of two rows.
  Point \<open>0\<close> holds rows 0 and 1 (it is \<open>ex_args\<close>), point \<open>1\<close> holds rows 2 and 3: its
  pointers start at its own sub-grid, its column indices are \<open>2\<close> and \<open>3\<close>.
\<close>

definition ex_part1 :: "rat CGTaskArgs" where
  "ex_part1 = \<lparr> sa_nCols = 2, sa_vals_sgb = (4, 7),
       avp = (\<lambda>k. [2, 1, 1, 2] ! nat k),
       aip = (\<lambda>k. [2, 3, 2, 3] ! nat k),
       azp = (\<lambda>k. 2),
       adp = (\<lambda>k. 2),
       rp = (\<lambda>k. 3) \<rparr>"

definition ex2_call :: "rat symgs_call" where
  "ex2_call = \<lparr> vals_lDom_volume = 2, x_lDom_volume = 2, r_lDom_volume = 2,
       argMap = (\<lambda>pt. if pt = 0 then ex_args else ex_part1) \<rparr>"

section \<open>Partitioning a logical array (legion-hpcg/explicit-spmd/LegionArrays.hpp)\<close>

text \<open>
  What \<open>LogicalArray::partition\<close> hands to the runtime: the sub-grid bounds of every
  color (\<open>disjointColoring[color]\<close>, in color order) and the launch domain.
\<close>

record partitioning =
  coloring :: "rect1 list"
  launchDomain :: rect1

text \<open>
  The loop of the even overload, \<open>n\<close> colors still to go:
  \<^verbatim>\<open>
    Rect<1> subRect((Point<1>(x0)), (Point<1>(x1)));
    disjointColoring[color] = Domain::from_rect<1>(subRect);
    x0 += inc;
    x1 += inc;
  \<close>
\<close>

fun even_colors :: "nat \<Rightarrow> int \<Rightarrow> int \<Rightarrow> int \<Rightarrow> rect1 list" where
  "even_colors 0 inc x0 x1 = []"
| "even_colors (Suc n) inc x0 x1 = (x0, x1) # even_colors n inc (x0 + inc) (x1 + inc)"

text \<open>
  \<open>partition(size_t nParts, ...)\<close> on an array of \<open>mLength\<close> elements. The assertion
  evaluates \<open>mLength % nParts\<close>, which has no defined value for \<open>nParts = 0\<close>.
  \<open>x1\<close> starts at \<open>inc - 1\<close>, which is \<open>-1\<close> as a point coordinate when \<open>inc = 0\<close>.
\<close>

definition partition_even :: "nat \<Rightarrow> nat \<Rightarrow> fault + partitioning" where
  "partition_even mLength nParts =
     (if nParts = 0 then Inl Division_by_zero
      else if \<not> (0 = mLength mod nParts) then Inl Uneven_partitioning
      else (let inc = int (mLength div nParts)
            in Inr \<lparr> coloring = even_colors nParts inc 0 (inc - 1),
                     launchDomain = (0, int nParts - 1) \<rparr>))"

text \<open>
  The loop of the overload taking \<open>partLens\<close>:
  \<^verbatim>\<open>
    x1 = x0 + partLens[color] - 1;
    Rect<1> subRect((Point<1>(x0)), (Point<1>(x1)));
    disjointColoring[color] = Domain::from_rect<1>(subRect);
    x0 += partLens[color];
  \<close>
  The entries of \<open>partLens\<close> are \<open>local_int_t\<close>, a signed integer, and are not
  checked. \<open>x0\<close> and \<open>x1\<close> are \<open>size_t\<close> and become point coordinates, which are
  signed; the sums are integers here, which is what the wrap-around and the conversion
  give for values that fit a coordinate.
\<close>

fun lens_colors :: "int list \<Rightarrow> int \<Rightarrow> rect1 list" where
  "lens_colors [] x0 = []"
| "lens_colors (l # ls) x0 = (x0, x0 + l - 1) # lens_colors ls (x0 + l)"

text \<open>
  \<open>partition(const std::vector<local_int_t> &partLens, ...)\<close>. The array's own
  \<open>mLength\<close> is not consulted by this overload.
\<close>

definition partition_lens :: "nat \<Rightarrow> int list \<Rightarrow> partitioning" where
  "partition_lens mLength partLens =
     \<lparr> coloring = lens_colors partLens 0,
       launchDomain = (0, int (length partLens) - 1) \<rparr>"

text \<open>The indices a partitioning hands out, all colors together.\<close>

definition covered :: "partitioning \<Rightarrow> int set" where
  "covered P = \<Union> (set (map rect_indices (coloring P)))"

section \<open>The inf-norm residual (legion-hpcg/explicit-spmd/ComputeResidual.hpp)\<close>

text \<open>
  \<open>v1.data()\<close> and \<open>v2.data()\<close> are pointers, functions from the offset to the value.
  The result is the pair of \<open>residual\<close> and the return code.
  \<^verbatim>\<open>
    floatType local_residual = 0.0;
    for (local_int_t i = 0; i < args.n; i++) {
        floatType diff = std::fabs(v1v[i] - v2v[i]);
        if (diff > local_residual) local_residual = diff;
    }
    residual = local_residual;
    return 0;
  \<close>
\<close>

definition ComputeResidualKernel ::
    "int \<Rightarrow> (int \<Rightarrow> 'a::linordered_idom) \<Rightarrow> (int \<Rightarrow> 'a) \<Rightarrow> 'a \<times> int" where
  "ComputeResidualKernel n v1v v2v =
     (fold (\<lambda>i local_residual.
              let diff = \<bar>v1v i - v2v i\<bar>
              in if diff > local_residual then diff else local_residual)
           (map int [0..<nat n]) 0,
      0)"

text \<open>
  Modelled from the spec: \<open>allReduce\<close> over the max collective \<open>dcReduceMax\<close>
  (CollectiveOps.hpp is not among the sources). The specification's reduction protocol
  combines the scalar each partition presents with a commutative and associative
  operator, max for the residual check, and every partition reads the combined value.
  \<open>mine\<close> is the caller's scalar, \<open>others\<close> are the scalars of the other partitions.
\<close>

definition allReduce_max :: "'a::linorder \<Rightarrow> 'a list \<Rightarrow> 'a" where
  "allReduce_max mine others = fold max others mine"

definition ComputeResidual ::
    "int \<Rightarrow> (int \<Rightarrow> 'a::linordered_idom) \<Rightarrow> (int \<Rightarrow> 'a) \<Rightarrow> 'a list \<Rightarrow> 'a \<times> int" where
  "ComputeResidual n v1v v2v others =
     (let local_residual = fst (ComputeResidualKernel n v1v v2v)
      in (allReduce_max local_residual others, 0))"

text \<open>The absolute differences of the first \<open>n\<close> entries.\<close>

definition abs_diffs :: "int \<Rightarrow> (int \<Rightarrow> 'a::linordered_idom) \<Rightarrow> (int \<Rightarrow> 'a) \<Rightarrow> 'a set" where
  "abs_diffs n v1v v2v = (\<lambda>i. \<bar>v1v i - v2v i\<bar>) ` {0..<n}"

section \<open>Physical items (legion-hpcg/explicit-spmd/LegionItems.hpp)\<close>

subsection \<open>\<open>offsetsAreDense\<close> (lgncg/redux/halo/LegionStuff.hpp)\<close>

text \<open>
  A \<open>Rect<DIM>\<close> is given by the coordinates of \<open>lo\<close> and of \<open>hi\<close>, the offsets by the
  function from the dimension to \<open>offset[j].offset\<close>. The outer loop runs \<open>DIM\<close> times;
  each time the inner loop takes the first \<open>j\<close> whose offset is the expected one and
  scales the expected offset by the extent of that dimension.
\<close>

fun offsetsAreDense_loop ::
    "nat \<Rightarrow> nat \<Rightarrow> (nat \<Rightarrow> int) \<Rightarrow> (nat \<Rightarrow> int) \<Rightarrow> (nat \<Rightarrow> int) \<Rightarrow> int \<Rightarrow> bool" where
  "offsetsAreDense_loop 0 DIM lo hi offset exp_offset = True"
| "offsetsAreDense_loop (Suc n) DIM lo hi offset exp_offset =
     (case List.find (\<lambda>j. offset j = exp_offset) [0..<DIM] of
        None \<Rightarrow> False
      | Some j \<Rightarrow> offsetsAreDense_loop n DIM lo hi offset (exp_offset * (hi j - lo j + 1)))"

definition offsetsAreDense ::
    "nat \<Rightarrow> nat \<Rightarrow> (nat \<Rightarrow> int) \<Rightarrow> (nat \<Rightarrow> int) \<Rightarrow> (nat \<Rightarrow> int) \<Rightarrow> bool" where
  "offsetsAreDense DIM sizeof_T lo hi offset =
     offsetsAreDense_loop DIM DIM lo hi offset (int sizeof_T)"

subsection \<open>The constructor of \<open>Item\<close>\<close>

text \<open>
  What \<open>raw_rect_ptr<1>\<close> of the runtime gives back: the pointer (\<open>None\<close> is
  \<open>nullptr\<close>), the sub-rectangle it is valid for, and the byte offsets.
\<close>

record 'p raw_rect =
  raw_ptr :: "'p option"
  subrect :: rect1
  inOffsets :: "nat \<Rightarrow> int"

record 'p Item =
  mLength :: nat
  mData :: "'p option"

definition Item_ctor :: "nat \<Rightarrow> rect1 \<Rightarrow> 'p raw_rect \<Rightarrow> 'p Item" where
  "Item_ctor sizeof_T subGridBounds rr =
     (let len = rect_volume subGridBounds;
          d = raw_ptr rr;
          d = (if d = None \<or> subrect rr \<noteq> subGridBounds \<or>
                  \<not> offsetsAreDense 1 sizeof_T (\<lambda>_. fst subGridBounds) (\<lambda>_. snd subGridBounds)
                       (inOffsets rr)
               then None else d)
      in \<lparr> mLength = len, mData = d \<rparr>)"

definition data :: "'p Item \<Rightarrow> 'p option" where
  "data it = mData it"

section \<open>The conjugate-gradient driver (legion-hpcg/explicit-spmd/CG.hpp)\<close>

subsection \<open>Kernels, futures and the timer\<close>

text \<open>
  \<open>CG\<close> calls kernels whose sources are not part of the development
  (\<open>CopyVector\<close>, \<open>ComputeSPMV\<close>, \<open>ComputeWAXPBY\<close>, \<open>ComputeDotProduct\<close>,
  \<open>ComputeMG\<close>, the square root of \<open>FutureMath\<close>). They are parameters: nothing is
  assumed about what they compute. \<open>'v\<close> is the content of a distributed array,
  \<open>'a\<close> is \<open>floatType\<close>. The matrix \<open>A\<close> and \<open>nrow\<close> are the same in every call and
  are part of the kernels. A kernel that writes an array receives the array's old
  content as its last argument.

  \<open>floatType\<close> needs \<open>0.0\<close>, \<open>1.0\<close>, negation, division and \<open>>\<close>; these are the
  operations of \<open>'a\<close>, with no law assumed unless a theorem says so.
\<close>

record ('a, 'v) cg_kernels =
  CopyVector :: "'v \<Rightarrow> 'v \<Rightarrow> 'v"
  ComputeSPMV :: "'v \<Rightarrow> 'v \<Rightarrow> 'v"
  ComputeWAXPBY :: "'a \<Rightarrow> 'v \<Rightarrow> 'a \<Rightarrow> 'v \<Rightarrow> 'v \<Rightarrow> 'v"
  ComputeDotProduct :: "'v \<Rightarrow> 'v \<Rightarrow> 'a"
  ComputeMG :: "'v \<Rightarrow> 'v \<Rightarrow> 'v"
  fsqrt :: "'a \<Rightarrow> 'a"

text \<open>
  The timer: \<open>mytimer T n\<close> is the value of the \<open>n\<close>-th call of \<open>mytimer()\<close> that \<open>CG\<close>
  makes. \<open>ComputeDotProduct\<close> receives \<open>t4\<close> by reference; \<open>allreduce_time T n t\<close> is
  the value it leaves there when it is called after \<open>n\<close> timer readings with \<open>t4 = t\<close>.
\<close>

record 't cg_clock =
  mytimer :: "nat \<Rightarrow> 't"
  allreduce_time :: "nat \<Rightarrow> 't \<Rightarrow> 't"

text \<open>
  The local variables of \<open>CG\<close>, its out-parameters \<open>niters\<close>, \<open>normr\<close>, \<open>normr0\<close>, and
  the vectors it writes. A \<open>Future\<close> is \<open>None\<close> while it is default-constructed and
  \<open>Some v\<close> once a dot product has been assigned to it. \<open>ticks\<close> counts the calls of
  \<open>mytimer()\<close> made so far.
\<close>

record ('a, 'v, 't) cg_state =
  x_vec :: 'v
  r_vec :: 'v
  z_vec :: 'v
  p_vec :: 'v
  Ap_vec :: 'v
  normr :: 'a
  normr0 :: 'a
  normrFuture :: "'a option"
  pApFuture :: "'a option"
  rtzFuture :: "'a option"
  oldrtzFuture :: "'a option"
  alpha :: 'a
  beta :: 'a
  niters :: int
  t_begin :: 't
  t0 :: 't
  t1 :: 't
  t2 :: 't
  t3 :: 't
  t4 :: 't
  t5 :: 't
  t6 :: 't
  ticks :: nat

text \<open>
  Modelled from the spec: \<open>ComputeFuture(f, op, g, ...).get_result()\<close> (FutureMath.hpp
  is not among the sources). The specification's deferred scalar is the result of a
  pure function (sqrt, divide) of one or two other deferred scalars, materialised
  when read. Reading through an empty future is the fault \<open>Empty_future\<close>.
\<close>

datatype FutureMathOp = FMO_SQRT | FMO_DIV

definition ComputeFuture ::
    "('a::inverse, 'v) cg_kernels \<Rightarrow> 'a option \<Rightarrow> FutureMathOp \<Rightarrow> 'a option \<Rightarrow> fault + 'a" where
  "ComputeFuture K f opr g =
     (case opr of
        FMO_SQRT \<Rightarrow> (case f of None \<Rightarrow> Inl Empty_future | Some a \<Rightarrow> Inr (fsqrt K a))
      | FMO_DIV \<Rightarrow>
          (case f of
             None \<Rightarrow> Inl Empty_future
           | Some a \<Rightarrow> (case g of None \<Rightarrow> Inl Empty_future | Some b \<Rightarrow> Inr (a / b))))"

text \<open>\<open>TICK()\<close> is \<open>t0 = mytimer()\<close>; \<open>TOCK(t)\<close> is \<open>t += mytimer() - t0\<close>.\<close>

definition TICK :: "'t cg_clock \<Rightarrow> ('a, 'v, 't) cg_state \<Rightarrow> ('a, 'v, 't) cg_state" where
  "TICK T s = s\<lparr>t0 := mytimer T (ticks s), ticks := Suc (ticks s)\<rparr>"

definition TOCK :: "'t::{plus,minus} cg_clock \<Rightarrow>
    (('t \<Rightarrow> 't) \<Rightarrow> ('a, 'v, 't) cg_state \<Rightarrow> ('a, 'v, 't) cg_state) \<Rightarrow>
    ('a, 'v, 't) cg_state \<Rightarrow> ('a, 'v, 't) cg_state" where
  "TOCK T t_update s =
     t_update (\<lambda>t. t + (mytimer T (ticks s) - t0 s)) (s\<lparr>ticks := Suc (ticks s)\<rparr>)"

text \<open>
  \<open>ComputeDotProduct(nrow, a, b, future, t4, ...)\<close>: the future receives the dot
  product, \<open>t4\<close> the all-reduce time.
\<close>

definition dot_into :: "('a, 'v) cg_kernels \<Rightarrow> 't cg_clock \<Rightarrow> 'v \<Rightarrow> 'v \<Rightarrow>
    (('a option \<Rightarrow> 'a option) \<Rightarrow> ('a, 'v, 't) cg_state \<Rightarrow> ('a, 'v, 't) cg_state) \<Rightarrow>
    ('a, 'v, 't) cg_state \<Rightarrow> ('a, 'v, 't) cg_state" where
  "dot_into K T a b future_update s =
     future_update (\<lambda>_. Some (ComputeDotProduct K a b))
       (s\<lparr>t4 := allreduce_time T (ticks s) (t4 s)\<rparr>)"

subsection \<open>The loop body\<close>

text \<open>The preconditioner step: \<open>z := MG(A, r)\<close>, or \<open>z := r\<close> when it is disabled.\<close>

definition cg_precondition :: "('a, 'v) cg_kernels \<Rightarrow> 't::{plus,minus} cg_clock \<Rightarrow> bool \<Rightarrow>
    ('a, 'v, 't) cg_state \<Rightarrow> ('a, 'v, 't) cg_state" where
  "cg_precondition K T doPreconditioning s0 =
     (let s = TICK T s0;
          s = (if doPreconditioning
               then s\<lparr>z_vec := ComputeMG K (r_vec s) (z_vec s)\<rparr>
               else s\<lparr>z_vec := CopyVector K (r_vec s) (z_vec s)\<rparr>)
      in TOCK T t5_update s)"

text \<open>The branch \<open>k == 1\<close>.\<close>

definition cg_first_direction :: "('a::{zero,one}, 'v) cg_kernels \<Rightarrow> 't::{plus,minus} cg_clock \<Rightarrow>
    ('a, 'v, 't) cg_state \<Rightarrow> ('a, 'v, 't) cg_state" where
  "cg_first_direction K T s0 =
     (let s = TICK T s0;
          s = s\<lparr>p_vec := ComputeWAXPBY K 1 (z_vec s) 0 (z_vec s) (p_vec s)\<rparr>;
          s = TOCK T t2_update s;
          s = TICK T s;
          s = dot_into K T (r_vec s) (z_vec s) rtzFuture_update s
      in TOCK T t1_update s)"

text \<open>The \<open>else\<close> branch.\<close>

definition cg_next_direction :: "('a::{one,inverse}, 'v) cg_kernels \<Rightarrow> 't::{plus,minus} cg_clock \<Rightarrow>
    ('a, 'v, 't) cg_state \<Rightarrow> fault + ('a, 'v, 't) cg_state" where
  "cg_next_direction K T s0 =
     (let s = s0\<lparr>oldrtzFuture := rtzFuture s0\<rparr>;
          s = TICK T s;
          s = dot_into K T (r_vec s) (z_vec s) rtzFuture_update s;
          s = TOCK T t1_update s
      in case ComputeFuture K (rtzFuture s) FMO_DIV (oldrtzFuture s) of
           Inl e \<Rightarrow> Inl e
         | Inr b \<Rightarrow>
             (let s = s\<lparr>beta := b\<rparr>;
                  s = TICK T s;
                  s = s\<lparr>p_vec := ComputeWAXPBY K 1 (z_vec s) (beta s) (p_vec s) (p_vec s)\<rparr>
              in Inr (TOCK T t2_update s)))"

text \<open>From \<open>Ap = A * p\<close> to the new \<open>normr\<close>.\<close>

definition cg_update :: "('a::{one,uminus,inverse}, 'v) cg_kernels \<Rightarrow> 't::{plus,minus} cg_clock \<Rightarrow>
    ('a, 'v, 't) cg_state \<Rightarrow> fault + ('a, 'v, 't) cg_state" where
  "cg_update K T s0 =
     (let s = TICK T s0;
          s = s\<lparr>Ap_vec := ComputeSPMV K (p_vec s) (Ap_vec s)\<rparr>;
          s = TOCK T t3_update s;
          s = TICK T s;
          s = dot_into K T (p_vec s) (Ap_vec s) pApFuture_update s;
          s = TOCK T t1_update s
      in case ComputeFuture K (rtzFuture s) FMO_DIV (pApFuture s) of
           Inl e \<Rightarrow> Inl e
         | Inr a \<Rightarrow>
             (let s = s\<lparr>alpha := a\<rparr>;
                  s = TICK T s;
                  s = s\<lparr>x_vec := ComputeWAXPBY K 1 (x_vec s) (alpha s) (p_vec s) (x_vec s)\<rparr>;
                  s = s\<lparr>r_vec := ComputeWAXPBY K 1 (r_vec s) (- alpha s) (Ap_vec s) (r_vec s)\<rparr>;
                  s = TOCK T t2_update s;
                  s = TICK T s;
                  s = dot_into K T (r_vec s) (r_vec s) normrFuture_update s;
                  s = TOCK T t1_update s
              in case ComputeFuture K (normrFuture s) FMO_SQRT None of
                   Inl e \<Rightarrow> Inl e
                 | Inr n \<Rightarrow> Inr (s\<lparr>normr := n\<rparr>)))"

text \<open>
  One pass through the body of the \<open>for\<close> loop, for the value \<open>k\<close> of the loop
  variable; the last statement is \<open>niters = k\<close>. (Printing is not modelled.)
\<close>

definition cg_iteration :: "('a::{zero,one,uminus,inverse}, 'v) cg_kernels \<Rightarrow>
    't::{plus,minus} cg_clock \<Rightarrow> bool \<Rightarrow> int \<Rightarrow>
    ('a, 'v, 't) cg_state \<Rightarrow> fault + ('a, 'v, 't) cg_state" where
  "cg_iteration K T doPreconditioning k s0 =
     (let s = cg_precondition K T doPreconditioning s0
      in case (if k = 1 then Inr (cg_first_direction K T s) else cg_next_direction K T s) of
           Inl e \<Rightarrow> Inl e
         | Inr s \<Rightarrow>
             (case cg_update K T s of
                Inl e \<Rightarrow> Inl e
              | Inr s \<Rightarrow> Inr (s\<lparr>niters := k\<rparr>)))"

subsection \<open>The loop\<close>

text \<open>The loop condition \<open>k <= maxIter && normr / normr0 > tolerance\<close>.\<close>

definition cg_continue :: "int \<Rightarrow> 'a::{inverse,ord} \<Rightarrow> int \<Rightarrow> ('a, 'v, 't) cg_state \<Rightarrow> bool" where
  "cg_continue maxIter tolerance k s \<longleftrightarrow> k \<le> maxIter \<and> normr s / normr0 s > tolerance"

text \<open>
  \<open>for (int k = 1; k <= maxIter && normr / normr0 > tolerance; k++)\<close>, entered with the
  current value of \<open>k\<close>. The counter is a mathematical integer: \<open>k++\<close> cannot overflow
  before \<open>k\<close> exceeds \<open>maxIter\<close> unless \<open>maxIter\<close> is the largest \<open>int\<close>.
\<close>

function cg_loop :: "('a::{zero,one,uminus,inverse,ord}, 'v) cg_kernels \<Rightarrow>
    't::{plus,minus} cg_clock \<Rightarrow> bool \<Rightarrow> int \<Rightarrow> 'a \<Rightarrow> int \<Rightarrow>
    ('a, 'v, 't) cg_state \<Rightarrow> fault + ('a, 'v, 't) cg_state" where
  "cg_loop K T doPreconditioning maxIter tolerance k s =
     (if cg_continue maxIter tolerance k s
      then (case cg_iteration K T doPreconditioning k s of
              Inl e \<Rightarrow> Inl e
            | Inr s' \<Rightarrow> cg_loop K T doPreconditioning maxIter tolerance (k + 1) s')
      else Inr s)"
  by pat_completeness auto
termination
  by (relation "measure (\<lambda>(K, T, d, maxIter, tolerance, k, s). nat (maxIter + 1 - k))")
     (auto simp: cg_continue_def)

declare cg_loop.simps [simp del]

subsection \<open>The driver\<close>

text \<open>The arguments of a call.\<close>

record ('a, 'v, 't) cg_call =
  b_in :: 'v
  x_in :: 'v
  data_r :: 'v
  data_z :: 'v
  data_p :: 'v
  data_Ap :: 'v
  maxIter_in :: int
  tolerance_in :: 'a
  niters_in :: int
  normr0_in :: 'a
  times_in :: "nat \<Rightarrow> 't"
  doPreconditioning_in :: bool

text \<open>
  The declarations at the head of \<open>CG\<close>: \<open>t_begin = mytimer()\<close>, the futures
  default-constructed, \<open>alpha\<close>, \<open>beta\<close> and the timers zero, \<open>normr = 0.0\<close>. \<open>niters\<close>
  and \<open>normr0\<close> are references to the caller's variables.
\<close>

definition cg_entry :: "'t::zero cg_clock \<Rightarrow> ('a::zero, 'v, 't) cg_call \<Rightarrow> ('a, 'v, 't) cg_state" where
  "cg_entry T c =
     \<lparr> x_vec = x_in c, r_vec = data_r c, z_vec = data_z c, p_vec = data_p c,
       Ap_vec = data_Ap c,
       normr = 0, normr0 = normr0_in c,
       normrFuture = None, pApFuture = None, rtzFuture = None, oldrtzFuture = None,
       alpha = 0, beta = 0,
       niters = niters_in c,
       t_begin = mytimer T 0,
       t0 = 0, t1 = 0, t2 = 0, t3 = 0, t4 = 0, t5 = 0, t6 = 0,
       ticks = 1 \<rparr>"

text \<open>
  From \<open>CopyVector(x, p)\<close> to \<open>normr0 = normr\<close>: \<open>Ap = A*p\<close>, \<open>r = b - Ap\<close>,
  \<open>normr = sqrt(r' * r)\<close>.
\<close>

definition cg_init :: "('a::{zero,one,uminus,inverse}, 'v) cg_kernels \<Rightarrow>
    't::{zero,plus,minus} cg_clock \<Rightarrow> ('a, 'v, 't) cg_call \<Rightarrow> fault + ('a, 'v, 't) cg_state" where
  "cg_init K T c =
     (let s = cg_entry T c;
          s = s\<lparr>p_vec := CopyVector K (x_vec s) (p_vec s)\<rparr>;
          s = TICK T s;
          s = s\<lparr>Ap_vec := ComputeSPMV K (p_vec s) (Ap_vec s)\<rparr>;
          s = TOCK T t3_update s;
          s = TICK T s;
          s = s\<lparr>r_vec := ComputeWAXPBY K 1 (b_in c) (- 1) (Ap_vec s) (r_vec s)\<rparr>;
          s = TOCK T t2_update s;
          s = TICK T s;
          s = dot_into K T (r_vec s) (r_vec s) normrFuture_update s;
          s = TOCK T t1_update s
      in case ComputeFuture K (normrFuture s) FMO_SQRT None of
           Inl e \<Rightarrow> Inl e
         | Inr n \<Rightarrow> (let s = s\<lparr>normr := n\<rparr> in Inr (s\<lparr>normr0 := normr s\<rparr>)))"

text \<open>
  What the caller has after the call: the return value, the state with the
  out-parameters and the vectors, and the array \<open>times\<close>.
\<close>

record ('a, 'v, 't) cg_result =
  status :: int
  final :: "('a, 'v, 't) cg_state"
  times :: "nat \<Rightarrow> 't"

text \<open>
  The statements after the loop:
  \<^verbatim>\<open>
    times[1] += t1; times[2] += t2; times[3] += t3;
    times[4] += t4; times[5] += t5; times[6] += t6;
    times[0] += mytimer() - t_begin;
    return 0;
  \<close>
\<close>

definition store_times :: "'t::{plus,minus} cg_clock \<Rightarrow> (nat \<Rightarrow> 't) \<Rightarrow> ('a, 'v, 't) cg_state \<Rightarrow> (nat \<Rightarrow> 't)" where
  "store_times T tms s =
     (let tms = tms(1 := tms 1 + t1 s);
          tms = tms(2 := tms 2 + t2 s);
          tms = tms(3 := tms 3 + t3 s);
          tms = tms(4 := tms 4 + t4 s);
          tms = tms(5 := tms 5 + t5 s);
          tms = tms(6 := tms 6 + t6 s)
      in tms(0 := tms 0 + (mytimer T (ticks s) - t_begin s)))"

definition CG :: "('a::{zero,one,uminus,inverse,ord}, 'v) cg_kernels \<Rightarrow>
    't::{zero,plus,minus} cg_clock \<Rightarrow> ('a, 'v, 't) cg_call \<Rightarrow> fault + ('a, 'v, 't) cg_result" where
  "CG K T c =
     (case cg_init K T c of
        Inl e \<Rightarrow> Inl e
      | Inr s \<Rightarrow>
          (case cg_loop K T (doPreconditioning_in c) (maxIter_in c) (tolerance_in c) 1 s of
             Inl e \<Rightarrow> Inl e
           | Inr s \<Rightarrow>
               Inr \<lparr> status = 0, final = s, times = store_times T (times_in c) s \<rparr>))"

text \<open>What a caller can read of the computation: everything but the timers.\<close>

definition computed :: "('a, 'v, 't) cg_state \<Rightarrow>
    ('v \<times> 'v \<times> 'v \<times> 'v \<times> 'v) \<times> ('a \<times> 'a \<times> int) \<times>
    ('a option \<times> 'a option \<times> 'a option \<times> 'a option) \<times> ('a \<times> 'a)" where
  "computed s =
     ((x_vec s, r_vec s, z_vec s, p_vec s, Ap_vec s),
      (normr s, normr0 s, niters s),
      (normrFuture s, pApFuture s, rtzFuture s, oldrtzFuture s),
      (alpha s, beta s))"

text \<open>
  A one-dimensional system for examples: the matrix \<open>[2]\<close>, vectors of one entry, the
  kernels of the specification (\<open>out = alpha * x + beta * y\<close> for WAXPBY, the product
  for the dot product), the diagonal solve as preconditioner; a clock that advances
  by one at every reading.
\<close>

definition ex_kernels :: "(real, real) cg_kernels" where
  "ex_kernels =
     \<lparr> CopyVector = (\<lambda>src dst. src),
       ComputeSPMV = (\<lambda>v out. 2 * v),
       ComputeWAXPBY = (\<lambda>a v b w out. a * v + b * w),
       ComputeDotProduct = (\<lambda>v w. v * w),
       ComputeMG = (\<lambda>v out. v / 2),
       fsqrt = sqrt \<rparr>"

definition ex_clock :: "real cg_clock" where
  "ex_clock = \<lparr> mytimer = (\<lambda>n. real n), allreduce_time = (\<lambda>n t. t) \<rparr>"

definition ex_state :: "(real, real, real) cg_state" where
  "ex_state =
     \<lparr> x_vec = 1, r_vec = 2, z_vec = 0, p_vec = 3, Ap_vec = 0,
       normr = 2, normr0 = 4,
       normrFuture = Some 4, pApFuture = Some 1, rtzFuture = Some 4, oldrtzFuture = None,
       alpha = 0, beta = 0, niters = 1,
       t_begin = 0, t0 = 0, t1 = 0, t2 = 0, t3 = 0, t4 = 0, t5 = 0, t6 = 0,
       ticks = 9 \<rparr>"

definition ex_cg_call :: "real \<Rightarrow> int \<Rightarrow> (real, real, real) cg_call" where
  "ex_cg_call b m =
     \<lparr> b_in = b, x_in = 0, data_r = 0, data_z = 0, data_p = 0, data_Ap = 0,
       maxIter_in = m, tolerance_in = 0, niters_in = 7, normr0_in = 0,
       times_in = (\<lambda>i. 0), doPreconditioning_in = True \<rparr>"

subsection \<open>Unordered quotients\<close>

text \<open>
  \<open>floatType\<close> is \<open>double\<close>, whose division and comparisons have values that no
  linear order has: \<open>0.0 / 0.0\<close> is NaN, and every comparison with NaN is false.
  \<open>flt\<close> has the finite values, the two infinities and NaN, with the arithmetic of
  IEEE 754 on them. Finite values are exact: there is no rounding and no overflow, and
  zero has no sign (a non-zero value divided by zero is the infinity of its sign).
\<close>

datatype flt = Fin real | PInf | NInf | NaN

instantiation flt :: "{zero,one,plus,minus,times,uminus,inverse,ord}"
begin

definition zero_flt :: flt where
  "zero_flt = Fin 0"

definition one_flt :: flt where
  "one_flt = Fin 1"

fun uminus_flt :: "flt \<Rightarrow> flt" where
  "uminus_flt (Fin a) = Fin (- a)"
| "uminus_flt PInf = NInf"
| "uminus_flt NInf = PInf"
| "uminus_flt NaN = NaN"

fun plus_flt :: "flt \<Rightarrow> flt \<Rightarrow> flt" where
  "plus_flt NaN y = NaN"
| "plus_flt x NaN = NaN"
| "plus_flt PInf NInf = NaN"
| "plus_flt NInf PInf = NaN"
| "plus_flt PInf y = PInf"
| "plus_flt x PInf = PInf"
| "plus_flt NInf y = NInf"
| "plus_flt x NInf = NInf"
| "plus_flt (Fin a) (Fin b) = Fin (a + b)"

definition minus_flt :: "flt \<Rightarrow> flt \<Rightarrow> flt" where
  "minus_flt x y = x + (- y)"

fun times_flt :: "flt \<Rightarrow> flt \<Rightarrow> flt" where
  "times_flt NaN y = NaN"
| "times_flt x NaN = NaN"
| "times_flt PInf PInf = PInf"
| "times_flt PInf NInf = NInf"
| "times_flt NInf PInf = NInf"
| "times_flt NInf NInf = PInf"
| "times_flt PInf (Fin b) = (if b = 0 then NaN else if 0 < b then PInf else NInf)"
| "times_flt NInf (Fin b) = (if b = 0 then NaN else if 0 < b then NInf else PInf)"
| "times_flt (Fin a) PInf = (if a = 0 then NaN else if 0 < a then PInf else NInf)"
| "times_flt (Fin a) NInf = (if a = 0 then NaN else if 0 < a then NInf else PInf)"
| "times_flt (Fin a) (Fin b) = Fin (a * b)"

fun divide_flt :: "flt \<Rightarrow> flt \<Rightarrow> flt" where
  "divide_flt NaN y = NaN"
| "divide_flt x NaN = NaN"
| "divide_flt PInf PInf = NaN"
| "divide_flt PInf NInf = NaN"
| "divide_flt NInf PInf = NaN"
| "divide_flt NInf NInf = NaN"
| "divide_flt PInf (Fin b) = (if 0 \<le> b then PInf else NInf)"
| "divide_flt NInf (Fin b) = (if 0 \<le> b then NInf else PInf)"
| "divide_flt (Fin a) PInf = Fin 0"
| "divide_flt (Fin a) NInf = Fin 0"
| "divide_flt (Fin a) (Fin b) =
     (if b = 0 then (if a = 0 then NaN else if 0 < a then PInf else NInf) else Fin (a / b))"

definition inverse_flt :: "flt \<Rightarrow> flt" where
  "inverse_flt x = divide (Fin 1) x"

fun less_flt :: "flt \<Rightarrow> flt \<Rightarrow> bool" where
  "less_flt NaN y = False"
| "less_flt x NaN = False"
| "less_flt x NInf = False"
| "less_flt NInf y = True"
| "less_flt PInf y = False"
| "less_flt (Fin a) PInf = True"
| "less_flt (Fin a) (Fin b) = (a < b)"

definition less_eq_flt :: "flt \<Rightarrow> flt \<Rightarrow> bool" where
  "less_eq_flt x y \<longleftrightarrow> x < y \<or> (x = y \<and> x \<noteq> NaN)"

instance ..

end

fun fl_sqrt :: "flt \<Rightarrow> flt" where
  "fl_sqrt (Fin a) = (if a < 0 then NaN else Fin (sqrt a))"
| "fl_sqrt PInf = PInf"
| "fl_sqrt NInf = NaN"
| "fl_sqrt NaN = NaN"

text \<open>
  The one-dimensional system of \<open>ex_kernels\<close> in this arithmetic, and a call with
  \<open>b = 0\<close> and the initial guess \<open>x = 0\<close>: the initial residual is zero.
\<close>

definition fl_kernels :: "(flt, flt) cg_kernels" where
  "fl_kernels =
     \<lparr> CopyVector = (\<lambda>src dst. src),
       ComputeSPMV = (\<lambda>v out. Fin 2 * v),
       ComputeWAXPBY = (\<lambda>a v b w out. a * v + b * w),
       ComputeDotProduct = (\<lambda>v w. v * w),
       ComputeMG = (\<lambda>v out. v / Fin 2),
       fsqrt = fl_sqrt \<rparr>"

definition fl_call :: "(flt, flt, real) cg_call" where
  "fl_call =
     \<lparr> b_in = 0, x_in = 0, data_r = 0, data_z = 0, data_p = 0, data_Ap = 0,
       maxIter_in = 50, tolerance_in = 0, niters_in = 7, normr0_in = 0,
       times_in = (\<lambda>i. 0), doPreconditioning_in = True \<rparr>"

section \<open>Properties of the symmetric Gauss-Seidel sweep\<close>

subsection \<open>The row update\<close>

lemma fold_minus_sum_list:
  fixes f :: "nat \<Rightarrow> 'a::ab_group_add"
  shows "fold (\<lambda>j s. s - f j) js s0 = s0 - sum_list (map f js)"
  by (induction js arbitrary: s0) (simp_all add: algebra_simps)

lemma symgs_inner_eq:
  "symgs_inner M xp i s0 = s0 - (\<Sum>j\<leftarrow>[0..<cnnz M i]. cVals M i j * xp (cIndx M i j))"
  unfolding symgs_inner_def by (rule fold_minus_sum_list)

lemma A_entry_sum:
  "A_entry M i c = (\<Sum>j\<in>{j \<in> {0..<cnnz M i}. cIndx M i j = c}. cVals M i j)"
proof -
  have "distinct (filter (\<lambda>j. cIndx M i j = c) [0..<cnnz M i])" by simp
  then show ?thesis
    unfolding A_entry_def
    by (simp add: sum_list_distinct_conv_sum_set)
qed

lemma packed_row_by_columns:
  assumes "finite C" "row_cols M i \<subseteq> C"
  shows "(\<Sum>j\<leftarrow>[0..<cnnz M i]. cVals M i j * xp (cIndx M i j)) = (\<Sum>c\<in>C. A_entry M i c * xp c)"
proof -
  have img: "cIndx M i ` {0..<cnnz M i} \<subseteq> C"
    using assms(2) by (simp add: row_cols_def)
  have "(\<Sum>j\<leftarrow>[0..<cnnz M i]. cVals M i j * xp (cIndx M i j))
      = (\<Sum>j\<in>{0..<cnnz M i}. cVals M i j * xp (cIndx M i j))"
    by (simp add: sum_list_distinct_conv_sum_set)
  also have "\<dots> = (\<Sum>c\<in>C. \<Sum>j\<in>{j \<in> {0..<cnnz M i}. cIndx M i j = c}. cVals M i j * xp (cIndx M i j))"
    using sum.group [OF _ assms(1) img, of "\<lambda>j. cVals M i j * xp (cIndx M i j)"] by simp
  also have "\<dots> = (\<Sum>c\<in>C. A_entry M i c * xp c)"
    by (rule sum.cong) (simp_all add: A_entry_sum sum_distrib_right)
  finally show ?thesis .
qed

lemma symgs_row_gs_update:
  assumes r0: "first_row M = 0"
      and d: "adp M i = A_entry M i i" and nz: "adp M i \<noteq> 0"
      and C: "finite C" "row_cols M i \<subseteq> C"
  shows "symgs_row M i xp = gs_update M C i xp"
proof -
  let ?S = "\<Sum>c\<in>C. A_entry M i c * xp c"
  have split: "?S = (if i \<in> C then A_entry M i i * xp i else 0) + (\<Sum>c\<in>C - {i}. A_entry M i c * xp c)"
    using C(1) by (simp add: sum.remove)
  have zero: "i \<notin> C \<Longrightarrow> A_entry M i i = 0"
  proof -
    assume "i \<notin> C"
    then have "filter (\<lambda>j. cIndx M i j = i) [0..<cnnz M i] = []"
      using C(2) by (auto simp: row_cols_def filter_empty_conv)
    then show ?thesis by (simp add: A_entry_def)
  qed
  have "i \<in> C" using zero d nz by auto
  then have key: "rp M i - ?S + xp i * adp M i = rp M i - (\<Sum>c\<in>C - {i}. A_entry M i c * xp c)"
    using split d by (simp add: algebra_simps)
  show ?thesis
    unfolding symgs_row_def gs_update_def Let_def r0 symgs_inner_eq packed_row_by_columns [OF C] key
    by (simp add: d)
qed

lemma symgs_sweep_gs:
  assumes "first_row M = 0" and "finite C"
      and "\<forall>i\<in>set rows. adp M i = A_entry M i i \<and> adp M i \<noteq> 0 \<and> row_cols M i \<subseteq> C"
  shows "symgs_sweep M rows xp = fold (gs_update M C) rows xp"
  using assms(3) unfolding symgs_sweep_def
proof (induction rows arbitrary: xp)
  case Nil
  then show ?case by simp
next
  case (Cons i rows)
  have i: "adp M i = A_entry M i i" "adp M i \<noteq> 0" "row_cols M i \<subseteq> C"
    using Cons.prems by auto
  have "symgs_row M i xp = gs_update M C i xp"
    by (rule symgs_row_gs_update [OF assms(1) i(1) i(2) assms(2) i(3)])
  moreover have "fold (symgs_row M) rows (gs_update M C i xp) = fold (gs_update M C) rows (gs_update M C i xp)"
  proof (rule Cons.IH, rule ballI)
    fix j assume "j \<in> set rows"
    then have "j \<in> set (i # rows)" by simp
    then show "adp M j = A_entry M j j \<and> adp M j \<noteq> 0 \<and> row_cols M j \<subseteq> C"
      using Cons.prems by blast
  qed
  ultimately show ?case by simp
qed

text \<open>
  Where the rows of a task start at row \<open>0\<close> of the matrix, local and matrix row
  numbers agree and the sweep is the fold, in the order the rows are visited, of the
  Gauss-Seidel update, each step reading the \<open>x\<close> left by the steps before it.
  Arithmetic is exact.
\<close>

lemma symgsTask_first_block_gauss_seidel:
  fixes M :: "'a::field CGTaskArgs"
  assumes "sa_nCols M \<noteq> 0" and "rect_volume (sa_vals_sgb M) mod sa_nCols M = 0"
      and "lNRows = rect_volume (sa_vals_sgb M) div sa_nCols M"
      and "first_row M = 0"
      and "finite C"
      and "\<forall>i\<in>set (symgsTask_rows sweep lNRows).
             adp M i = A_entry M i i \<and> adp M i \<noteq> 0 \<and> row_cols M i \<subseteq> C"
  shows "symgsTask M sweep xp = Inr (fold (gs_update M C) (symgsTask_rows sweep lNRows) xp)"
proof -
  have "symgs_sweep M (symgsTask_rows sweep lNRows) xp = fold (gs_update M C) (symgsTask_rows sweep lNRows) xp"
    using assms(4,5,6) by (rule symgs_sweep_gs)
  then show ?thesis using assms(1,2,3) by (simp add: symgsTask_def)
qed

lemmas ex_simps = ex_args_def ex_call_def rect_volume_def symgsTask_rows_def A_entry_def row_cols_def
  cVals_def cIndx_def cnnz_def upt_conv_Cons

lemmas ex2_simps = ex_part1_def ex2_call_def first_row_def gs_update_def symgs_def symgs_sweepis_def
  execute_index_space_def symgsTask_def symgs_sweep_def symgs_row_def symgs_inner_def Let_def

text \<open>
  C4. On the two-task example the task of point \<open>1\<close> holds the rows 2 and 3. Its cached
  diagonal is the diagonal entry of each of its packed rows (column 2 for its local
  row 0, column 3 for its local row 1) and is not zero. Its forward sweep reads the
  columns 2 and 3 of \<open>x\<close> but adds back and writes \<open>x[0]\<close> and \<open>x[1]\<close>, the local
  row numbers: from \<open>x = 0\<close> it leaves \<open>x = [3/2, 3/2, 0, 0]\<close>, where the Gauss-Seidel
  update of the rows 2 and 3 leaves \<open>x = [0, 0, 3/2, 3/4]\<close>. The whole call of \<open>symgs\<close>
  on the two tasks leaves \<open>x = [3/2, 3, 0, 0]\<close>: the rows 2 and 3 are never updated.
\<close>

theorem symgsTask_updates_local_index:
  "first_row ex_part1 = 2
   \<and> adp ex_part1 0 = A_entry ex_part1 0 2 \<and> adp ex_part1 0 \<noteq> 0
   \<and> adp ex_part1 1 = A_entry ex_part1 1 3 \<and> adp ex_part1 1 \<noteq> 0
   \<and> (\<exists>X. symgsTask ex_part1 1 (\<lambda>k. 0) = Inr X \<and>
           X 0 = 3 / 2 \<and> X 1 = 3 / 2 \<and> X 2 = 0 \<and> X 3 = 0)
   \<and> fold (gs_update ex_part1 {0, 1, 2, 3}) (symgsTask_rows 1 2) (\<lambda>k. 0) 0 = 0
   \<and> fold (gs_update ex_part1 {0, 1, 2, 3}) (symgsTask_rows 1 2) (\<lambda>k. 0) 1 = 0
   \<and> fold (gs_update ex_part1 {0, 1, 2, 3}) (symgsTask_rows 1 2) (\<lambda>k. 0) 2 = 3 / 2
   \<and> fold (gs_update ex_part1 {0, 1, 2, 3}) (symgsTask_rows 1 2) (\<lambda>k. 0) 3 = 3 / 4
   \<and> (\<exists>X. symgs ex2_call (\<lambda>k. 0) = Inr X \<and>
           X 0 = 3 / 2 \<and> X 1 = 3 \<and> X 2 = 0 \<and> X 3 = 0)"
proof -
  have a: "first_row ex_part1 = 2" by (simp add: ex_part1_def first_row_def)
  have b: "adp ex_part1 0 = A_entry ex_part1 0 2 \<and> adp ex_part1 0 \<noteq> 0"
          "adp ex_part1 1 = A_entry ex_part1 1 3 \<and> adp ex_part1 1 \<noteq> 0"
    by (simp_all add: ex_part1_def ex_simps)
  have c: "\<exists>X. symgsTask ex_part1 1 (\<lambda>k. 0) = Inr X \<and>
           X 0 = 3 / 2 \<and> X 1 = 3 / 2 \<and> X 2 = 0 \<and> X 3 = 0"
    by (simp add: ex2_simps ex_simps)
  have d: "fold (gs_update ex_part1 {0, 1, 2, 3}) (symgsTask_rows 1 2) (\<lambda>k. 0) 0 = 0"
          "fold (gs_update ex_part1 {0, 1, 2, 3}) (symgsTask_rows 1 2) (\<lambda>k. 0) 1 = 0"
          "fold (gs_update ex_part1 {0, 1, 2, 3}) (symgsTask_rows 1 2) (\<lambda>k. 0) 2 = 3 / 2"
          "fold (gs_update ex_part1 {0, 1, 2, 3}) (symgsTask_rows 1 2) (\<lambda>k. 0) 3 = 3 / 4"
    by code_simp+
  have e: "\<exists>X. symgs ex2_call (\<lambda>k. 0) = Inr X \<and>
           X 0 = 3 / 2 \<and> X 1 = 3 \<and> X 2 = 0 \<and> X 3 = 0"
    by (simp add: ex2_simps ex_simps)
  show ?thesis using a b c d e by blast
qed

subsection \<open>The order of the sweeps\<close>

text \<open>
  C1 (as the code has it). A call of \<open>symgs\<close> launches the task twice, with the
  arguments \<open>0\<close> and \<open>1\<close> in this order. A task given \<open>0\<close> visits its rows from
  \<open>n - 1\<close> down to \<open>0\<close> (the back sweep), a task given \<open>1\<close> visits them from \<open>0\<close>
  up to \<open>n - 1\<close> (the forward sweep). So one call performs exactly two sweeps over the
  local rows: first the backward one, then the forward one.
\<close>

theorem symgs_back_sweep_then_forward_sweep:
  fixes L :: "'a::field symgs_call"
  shows "symgs_sweepis = [0, 1]
       \<and> symgsTask_rows 0 n = rev (map int [0..<n])
       \<and> symgsTask_rows 1 n = map int [0..<n]
       \<and> (vals_lDom_volume L = x_lDom_volume L \<and> x_lDom_volume L = r_lDom_volume L \<longrightarrow>
            symgs L xp =
              (case execute_index_space L 0 xp of
                 Inl e \<Rightarrow> Inl e
               | Inr xp' \<Rightarrow> execute_index_space L 1 xp'))
       \<and> (vals_lDom_volume L = 1 \<and> x_lDom_volume L = 1 \<and> r_lDom_volume L = 1 \<and>
          sa_nCols (argMap L 0) \<noteq> 0 \<and>
          rect_volume (sa_vals_sgb (argMap L 0)) = n * sa_nCols (argMap L 0) \<longrightarrow>
            symgs L xp =
              Inr (symgs_sweep (argMap L 0) (rev (map int [0..<n]) @ map int [0..<n]) xp))"
proof -
  have a: "symgs_sweepis = [0, 1]" by (simp add: symgs_sweepis_def)
  have b: "symgsTask_rows 0 n = rev (map int [0..<n])" "symgsTask_rows 1 n = map int [0..<n]"
    by (simp_all add: symgsTask_rows_def)
  have c: "symgs L xp =
              (case execute_index_space L 0 xp of
                 Inl e \<Rightarrow> Inl e
               | Inr xp' \<Rightarrow> execute_index_space L 1 xp')"
    if "vals_lDom_volume L = x_lDom_volume L \<and> x_lDom_volume L = r_lDom_volume L"
    using that by (simp add: symgs_def a split: sum.splits)
  have d: "symgs L xp =
              Inr (symgs_sweep (argMap L 0) (rev (map int [0..<n]) @ map int [0..<n]) xp)"
    if h: "vals_lDom_volume L = 1 \<and> x_lDom_volume L = 1 \<and> r_lDom_volume L = 1 \<and>
          sa_nCols (argMap L 0) \<noteq> 0 \<and>
          rect_volume (sa_vals_sgb (argMap L 0)) = n * sa_nCols (argMap L 0)"
  proof -
    have t: "symgsTask (argMap L 0) sw y = Inr (symgs_sweep (argMap L 0) (symgsTask_rows sw n) y)" for sw y
      using h by (simp add: symgsTask_def)
    have e: "execute_index_space L sw y = Inr (symgs_sweep (argMap L 0) (symgsTask_rows sw n) y)" for sw y
      using h by (simp add: execute_index_space_def t)
    show ?thesis
      using h by (simp add: symgs_def a e b symgs_sweep_def)
  qed
  show ?thesis using a b c d by blast
qed

theorem symgs_back_sweep_then_forward_sweep_witness:
  "symgs ex_call (\<lambda>k. 0) = Inr (symgs_sweep ex_args [1, 0, 0, 1] (\<lambda>k. 0))"
proof -
  have h: "vals_lDom_volume ex_call = 1 \<and> x_lDom_volume ex_call = 1 \<and> r_lDom_volume ex_call = 1 \<and>
          sa_nCols (argMap ex_call 0) \<noteq> 0 \<and>
          rect_volume (sa_vals_sgb (argMap ex_call 0)) = 2 * sa_nCols (argMap ex_call 0)"
    by (simp add: ex_call_def ex_args_def rect_volume_def)
  have r: "rev (map int [0..<2]) @ map int [0..<2] = [1, 0, 0, 1]"
    by (simp add: upt_conv_Cons)
  have a: "argMap ex_call 0 = ex_args" by (simp add: ex_call_def)
  from symgs_back_sweep_then_forward_sweep [of 2 ex_call "\<lambda>k. 0"] h
  have "symgs ex_call (\<lambda>k. 0) =
          Inr (symgs_sweep (argMap ex_call 0) (rev (map int [0..<2]) @ map int [0..<2]) (\<lambda>k. 0))"
    by blast
  then show ?thesis unfolding r a .
qed

text \<open>
  On the example the call is not the forward sweep followed by the backward sweep: that
  order leaves \<open>x[0] = 9/8\<close>, the call leaves \<open>x[0] = 3/4\<close>; and the row orders of the
  two launches are not \<open>[0, 1]\<close> then \<open>[1, 0]\<close>.
\<close>

theorem symgs_forward_first_counterexample:
  "\<not> (symgs ex_call (\<lambda>k. 0) =
        Inr (symgs_sweep ex_args (map int [0..<2] @ rev (map int [0..<2])) (\<lambda>k. 0)))
   \<and> map (\<lambda>sweepi. symgsTask_rows sweepi 2) symgs_sweepis
       \<noteq> [map int [0..<2], rev (map int [0..<2])]"
proof -
  have code: "symgs ex_call (\<lambda>k. 0) = Inr (symgs_sweep ex_args [1, 0, 0, 1] (\<lambda>k. 0))"
    by (simp add: symgs_def symgs_sweepis_def execute_index_space_def symgsTask_def
        symgs_sweep_def ex_simps)
  have v1: "symgs_sweep ex_args [1, 0, 0, 1] (\<lambda>k. 0) 0 = 3 / 4"
    by (simp add: symgs_sweep_def symgs_row_def symgs_inner_def ex_simps)
  have v2: "symgs_sweep ex_args (map int [0..<2] @ rev (map int [0..<2])) (\<lambda>k. 0) 0 = 9 / 8"
    by (simp add: symgs_sweep_def symgs_row_def symgs_inner_def ex_simps)
  have "symgs_sweep ex_args [1, 0, 0, 1] (\<lambda>k. 0)
      \<noteq> symgs_sweep ex_args (map int [0..<2] @ rev (map int [0..<2])) (\<lambda>k. 0)"
  proof
    assume "symgs_sweep ex_args [1, 0, 0, 1] (\<lambda>k. 0)
          = symgs_sweep ex_args (map int [0..<2] @ rev (map int [0..<2])) (\<lambda>k. 0)"
    then have "symgs_sweep ex_args [1, 0, 0, 1] (\<lambda>k. 0) 0
          = symgs_sweep ex_args (map int [0..<2] @ rev (map int [0..<2])) (\<lambda>k. 0) 0"
      by simp
    then show False unfolding v1 v2 by simp
  qed
  then have one: "\<not> (symgs ex_call (\<lambda>k. 0) =
        Inr (symgs_sweep ex_args (map int [0..<2] @ rev (map int [0..<2])) (\<lambda>k. 0)))"
    unfolding code by simp
  have two: "map (\<lambda>sweepi. symgsTask_rows sweepi 2) symgs_sweepis
       \<noteq> [map int [0..<2], rev (map int [0..<2])]"
    by (simp add: symgs_sweepis_def symgsTask_rows_def upt_conv_Cons)
  show ?thesis using one two by blast
qed

section \<open>Properties of partitioning and of the assertions\<close>

lemma length_lens_colors: "length (lens_colors ls x0) = length ls"
  by (induction ls arbitrary: x0) simp_all

lemma lens_colors_nth:
  "c < length ls \<Longrightarrow>
   lens_colors ls x0 ! c =
     (x0 + sum_list (take c ls), x0 + sum_list (take c ls) + ls ! c - 1)"
proof (induction ls arbitrary: c x0)
  case Nil
  then show ?case by simp
next
  case (Cons l ls)
  show ?case
  proof (cases c)
    case 0
    then show ?thesis by simp
  next
    case (Suc c')
    then have "c' < length ls" using Cons.prems by simp
    from Cons.IH [OF this, of "x0 + l"] show ?thesis
      using Suc by (simp add: algebra_simps)
  qed
qed

lemma lens_colors_cover:
  assumes "\<forall>l\<in>set ls. 0 \<le> l"
  shows "\<Union> (rect_indices ` set (lens_colors ls x0)) = {x0 ..< x0 + sum_list ls}"
  using assms
proof (induction ls arbitrary: x0)
  case Nil
  then show ?case by simp
next
  case (Cons l ls)
  have l: "0 \<le> l" and rest: "\<forall>l\<in>set ls. 0 \<le> l" using Cons.prems by simp_all
  have s: "0 \<le> sum_list ls" using rest by (simp add: sum_list_nonneg)
  have "rect_indices (x0, x0 + l - 1) = {x0 ..< x0 + l}"
    by (auto simp: rect_indices_def)
  then show ?case
    using Cons.IH [OF rest, of "x0 + l"] l s by (auto simp: algebra_simps)
qed

lemma sum_list_take_mono:
  fixes ls :: "int list"
  assumes "m \<le> n" and "\<forall>l\<in>set ls. 0 \<le> l"
  shows "sum_list (take m ls) \<le> sum_list (take n ls)"
proof -
  have "take n ls = take m ls @ take (n - m) (drop m ls)"
    using assms(1) by (metis le_add_diff_inverse take_add)
  moreover have "0 \<le> sum_list (take (n - m) (drop m ls))"
  proof (rule sum_list_nonneg)
    fix l assume "l \<in> set (take (n - m) (drop m ls))"
    then have "l \<in> set ls" by (meson in_set_dropD in_set_takeD)
    then show "0 \<le> l" using assms(2) by simp
  qed
  ultimately show ?thesis by simp
qed

lemma lens_colors_disjoint:
  assumes "c < d" "d < length ls" and nonneg: "\<forall>l\<in>set ls. 0 \<le> l"
  shows "rect_indices (lens_colors ls x0 ! c) \<inter> rect_indices (lens_colors ls x0 ! d) = {}"
proof -
  have c: "c < length ls" using assms by simp
  have "sum_list (take (Suc c) ls) \<le> sum_list (take d ls)"
    using assms(1) nonneg by (intro sum_list_take_mono) simp_all
  moreover have "sum_list (take (Suc c) ls) = sum_list (take c ls) + ls ! c"
    using c by (simp add: take_Suc_conv_app_nth)
  ultimately have "sum_list (take c ls) + ls ! c \<le> sum_list (take d ls)"
    by linarith
  then show ?thesis
    by (auto simp: lens_colors_nth [OF c] lens_colors_nth [OF assms(2)] rect_indices_def)
qed

lemma even_colors_as_lens:
  "even_colors n w x0 (x0 + w - 1) = lens_colors (replicate n w) x0"
proof (induction n arbitrary: x0)
  case 0
  then show ?case by simp
next
  case (Suc n)
  have eq: "x0 + w - 1 + w = (x0 + w) + w - 1" by simp
  have "even_colors n w (x0 + w) (x0 + w - 1 + w) =
        lens_colors (replicate n w) (x0 + w)"
    unfolding eq by (rule Suc.IH)
  then show ?case by (simp only: even_colors.simps replicate.simps lens_colors.simps)
qed

text \<open>
  C6 (as the code has it). The even overload, for \<open>nParts\<close> dividing the length,
  gives color \<open>c\<close> the range that starts at \<open>c * (length / nParts)\<close>; its ranges are
  pairwise disjoint, follow one another and cover exactly \<open>0 .. length - 1\<close>. The
  overload taking \<open>partLens\<close> gives color \<open>c\<close> the range that starts at the sum of the
  entries before it, whatever the entries are. When no entry is negative its ranges
  are pairwise disjoint and cover exactly \<open>0 .. sum partLens - 1\<close>, which is
  \<open>0 .. length - 1\<close> when the entries add up to the array's length.
\<close>

theorem partition_contiguous_cover:
  fixes len nParts :: nat and partLens :: "int list"
  shows "(0 < nParts \<and> nParts dvd len \<longrightarrow>
           (\<exists>P. partition_even len nParts = Inr P \<and>
                length (coloring P) = nParts \<and>
                (\<forall>c<nParts. coloring P ! c =
                    (int c * int (len div nParts),
                     int c * int (len div nParts) + int (len div nParts) - 1)) \<and>
                (\<forall>c d. c < d \<and> d < nParts \<longrightarrow>
                    rect_indices (coloring P ! c) \<inter> rect_indices (coloring P ! d) = {}) \<and>
                covered P = {0 ..< int len}))
       \<and> length (coloring (partition_lens len partLens)) = length partLens
       \<and> (\<forall>c<length partLens. coloring (partition_lens len partLens) ! c =
                    (sum_list (take c partLens),
                     sum_list (take c partLens) + partLens ! c - 1))
       \<and> ((\<forall>l\<in>set partLens. 0 \<le> l) \<longrightarrow>
            (\<forall>c d. c < d \<and> d < length partLens \<longrightarrow>
              rect_indices (coloring (partition_lens len partLens) ! c) \<inter>
              rect_indices (coloring (partition_lens len partLens) ! d) = {}) \<and>
            covered (partition_lens len partLens) = {0 ..< sum_list partLens} \<and>
            (sum_list partLens = int len \<longrightarrow>
               covered (partition_lens len partLens) = {0 ..< int len}))"
proof -
  have lens1: "length (coloring (partition_lens len partLens)) = length partLens"
    by (simp add: partition_lens_def length_lens_colors)
  have lens2: "\<forall>c<length partLens. coloring (partition_lens len partLens) ! c =
                    (sum_list (take c partLens),
                     sum_list (take c partLens) + partLens ! c - 1)"
    by (simp add: partition_lens_def lens_colors_nth)
  have lens3: "\<forall>c d. c < d \<and> d < length partLens \<longrightarrow>
              rect_indices (coloring (partition_lens len partLens) ! c) \<inter>
              rect_indices (coloring (partition_lens len partLens) ! d) = {}"
    if "\<forall>l\<in>set partLens. 0 \<le> l"
    using that by (simp add: partition_lens_def lens_colors_disjoint)
  have lens4: "covered (partition_lens len partLens) = {0 ..< sum_list partLens}"
    if "\<forall>l\<in>set partLens. 0 \<le> l"
    using that by (simp add: partition_lens_def covered_def lens_colors_cover)
  have even: "\<exists>P. partition_even len nParts = Inr P \<and>
                length (coloring P) = nParts \<and>
                (\<forall>c<nParts. coloring P ! c =
                    (int c * int (len div nParts),
                     int c * int (len div nParts) + int (len div nParts) - 1)) \<and>
                (\<forall>c d. c < d \<and> d < nParts \<longrightarrow>
                    rect_indices (coloring P ! c) \<inter> rect_indices (coloring P ! d) = {}) \<and>
                covered P = {0 ..< int len}"
    if pos: "0 < nParts" and dv: "nParts dvd len"
  proof -
    let ?w = "int (len div nParts)"
    let ?P = "\<lparr> coloring = lens_colors (replicate nParts ?w) 0, launchDomain = (0, int nParts - 1) \<rparr>"
    have P: "partition_even len nParts = Inr ?P"
      using pos dv even_colors_as_lens [of nParts ?w 0]
      by (simp add: partition_even_def Let_def dvd_eq_mod_eq_0)
    have nn: "\<forall>l\<in>set (replicate nParts ?w). 0 \<le> l" by simp
    have "nParts * (len div nParts) = len" using dv by simp
    then have tot: "int nParts * ?w = int len" by (metis of_nat_mult)
    have a: "length (coloring ?P) = nParts" by (simp add: length_lens_colors)
    have b: "\<forall>c<nParts. coloring ?P ! c = (int c * ?w, int c * ?w + ?w - 1)"
      by (simp add: lens_colors_nth sum_list_replicate)
    have c: "\<forall>c d. c < d \<and> d < nParts \<longrightarrow>
                rect_indices (coloring ?P ! c) \<inter> rect_indices (coloring ?P ! d) = {}"
      using lens_colors_disjoint [OF _ _ nn] by simp
    have d: "covered ?P = {0 ..< int len}"
      using tot lens_colors_cover [OF nn, of 0] by (simp add: covered_def sum_list_replicate)
    show ?thesis using P a b c d by blast
  qed
  show ?thesis using lens1 lens2 lens3 lens4 even by simp
qed

theorem partition_contiguous_cover_witness:
  "(0::nat) < 2 \<and> (2::nat) dvd 4 \<and> partition_even 4 2 = Inr \<lparr>coloring = [(0, 1), (2, 3)], launchDomain = (0, 1)\<rparr>
   \<and> coloring (partition_lens 4 [1, 3]) = [(0, 0), (1, 3)]
   \<and> covered (partition_lens 4 [1, 3]) = {0 ..< 4} \<and> sum_list [1, 3] = (4::int)"
proof -
  have e: "even_colors 2 2 0 1 = [(0, 1), (2, 3)]"
    by (simp add: numeral_2_eq_2)
  have p: "partition_even 4 2 = Inr \<lparr>coloring = [(0, 1), (2, 3)], launchDomain = (0, 1)\<rparr>"
    by (simp add: partition_even_def Let_def e)
  have n: "\<forall>l\<in>set [1, 3::int]. 0 \<le> l" by simp
  have c: "coloring (partition_lens 4 [1, 3]) = [(0, 0), (1, 3)]"
    by (simp add: partition_lens_def)
  show ?thesis
    using partition_contiguous_cover [of 2 4 "[1, 3]"] p n c by simp
qed

text \<open>
  With \<open>partLens = [1, 1]\<close> on an array of length 4 the colors cover \<open>0\<close> and \<open>1\<close>
  only; with \<open>partLens = [2, -1, 3]\<close> the colors are \<open>(0, 1)\<close>, \<open>(2, 0)\<close> and \<open>(1, 3)\<close>,
  and the first and the third share the index \<open>1\<close>.
\<close>

theorem partition_lens_cover_counterexample:
  "covered (partition_lens 4 [1, 1]) \<noteq> {0 ..< 4}
   \<and> coloring (partition_lens 4 [2, - 1, 3]) = [(0, 1), (2, 0), (1, 3)]
   \<and> rect_indices (coloring (partition_lens 4 [2, - 1, 3]) ! 0) \<inter>
       rect_indices (coloring (partition_lens 4 [2, - 1, 3]) ! 2) \<noteq> {}"
proof -
  have one: "covered (partition_lens 4 [1, 1]) \<noteq> {0 ..< 4}"
  proof
    assume "covered (partition_lens 4 [1, 1]) = {0 ..< 4}"
    moreover have "(3::int) \<in> {0 ..< 4}" by simp
    ultimately have "(3::int) \<in> covered (partition_lens 4 [1, 1])" by simp
    then show False by (simp add: covered_def partition_lens_def rect_indices_def)
  qed
  have two: "coloring (partition_lens 4 [2, - 1, 3]) = [(0, 1), (2, 0), (1, 3)]"
    by (simp add: partition_lens_def)
  have "(1::int) \<in> rect_indices (coloring (partition_lens 4 [2, - 1, 3]) ! 0) \<inter>
       rect_indices (coloring (partition_lens 4 [2, - 1, 3]) ! 2)"
    unfolding two by (simp add: rect_indices_def)
  then have three: "rect_indices (coloring (partition_lens 4 [2, - 1, 3]) ! 0) \<inter>
       rect_indices (coloring (partition_lens 4 [2, - 1, 3]) ! 2) \<noteq> {}"
    by blast
  show ?thesis using one two three by blast
qed

lemma run_points_not_mismatch: "run_points am sweep pts xp \<noteq> Inl Launch_domain_mismatch"
  by (induction pts arbitrary: xp) (auto simp: symgsTask_def split: sum.splits)

lemma run_sweeps_not_mismatch: "run_sweeps L sw xp \<noteq> Inl Launch_domain_mismatch"
  by (induction sw arbitrary: xp)
     (auto simp: execute_index_space_def run_points_not_mismatch split: sum.splits)

text \<open>
  C5. \<open>partition(nParts)\<close>, for \<open>nParts > 0\<close>, stops at its assertion exactly when
  \<open>nParts\<close> does not divide the length, and \<open>symgs\<close> stops at its assertion exactly
  when the three launch-domain volumes are not all equal; both happen before any other
  work. With an even split the partition is built, and with equal volumes \<open>symgs\<close>
  goes on to its sweeps.
\<close>

theorem malformed_partitioning_aborts:
  fixes len nParts :: nat
  shows "(0 < nParts \<longrightarrow>
            (partition_even len nParts = Inl Uneven_partitioning \<longleftrightarrow> \<not> nParts dvd len))
       \<and> (symgs L xp = Inl Launch_domain_mismatch \<longleftrightarrow>
            \<not> (vals_lDom_volume L = x_lDom_volume L \<and> x_lDom_volume L = r_lDom_volume L))
       \<and> (0 < nParts \<and> nParts dvd len \<longrightarrow> (\<exists>P. partition_even len nParts = Inr P))
       \<and> (vals_lDom_volume L = x_lDom_volume L \<and> x_lDom_volume L = r_lDom_volume L \<longrightarrow>
            symgs L xp = run_sweeps L symgs_sweepis xp)"
  by (auto simp: partition_even_def symgs_def run_sweeps_not_mismatch Let_def dvd_eq_mod_eq_0)

theorem malformed_partitioning_aborts_witness:
  "(0::nat) < 2 \<and> partition_even 5 2 = Inl Uneven_partitioning \<and> \<not> (2::nat) dvd 5
   \<and> (2::nat) dvd 4 \<and> (\<exists>P. partition_even 4 2 = Inr P)
   \<and> symgs (ex_call\<lparr>r_lDom_volume := 2\<rparr>) (\<lambda>k. 0) = Inl Launch_domain_mismatch
   \<and> symgs ex_call (\<lambda>k. 0) = run_sweeps ex_call symgs_sweepis (\<lambda>k. 0)"
  using malformed_partitioning_aborts [of 2 5 "ex_call\<lparr>r_lDom_volume := 2\<rparr>" "\<lambda>k. 0"]
        malformed_partitioning_aborts [of 2 4 ex_call "\<lambda>k. 0"]
  by (simp add: ex_call_def)

section \<open>Properties of the residual\<close>

lemma finite_abs_diffs: "finite (abs_diffs n v1v v2v)"
  by (simp add: abs_diffs_def)

lemma abs_diffs_Suc:
  "abs_diffs (int (Suc k)) v1v v2v = insert \<bar>v1v (int k) - v2v (int k)\<bar> (abs_diffs (int k) v1v v2v)"
proof -
  have "{0 ..< int (Suc k)} = insert (int k) {0 ..< int k}" by auto
  then show ?thesis by (simp add: abs_diffs_def)
qed

lemma residual_loop_Max:
  fixes v1v v2v :: "int \<Rightarrow> 'a::linordered_idom"
  shows "fold (\<lambda>i local_residual.
              let diff = \<bar>v1v i - v2v i\<bar>
              in if diff > local_residual then diff else local_residual)
           (map int [0..<k]) acc
         = Max (insert acc (abs_diffs (int k) v1v v2v))"
proof (induction k)
  case 0
  then show ?case by (simp add: abs_diffs_def)
next
  case (Suc k)
  let ?d = "\<bar>v1v (int k) - v2v (int k)\<bar>"
  let ?m = "Max (insert acc (abs_diffs (int k) v1v v2v))"
  have "Max (insert acc (abs_diffs (int (Suc k)) v1v v2v)) = max ?d ?m"
    unfolding abs_diffs_Suc
    by (subst insert_commute) (simp add: finite_abs_diffs)
  also have "\<dots> = (if ?d > ?m then ?d else ?m)"
    by (simp add: max_def not_less)
  finally show ?case using Suc.IH by (simp add: Let_def)
qed

lemma Max_insert_zero_abs_diffs:
  fixes v1v v2v :: "int \<Rightarrow> 'a::linordered_idom"
  assumes "0 < n"
  shows "Max (insert 0 (abs_diffs n v1v v2v)) = Max (abs_diffs n v1v v2v)"
proof -
  have ne: "abs_diffs n v1v v2v \<noteq> {}" using assms by (simp add: abs_diffs_def)
  have "\<bar>v1v 0 - v2v 0\<bar> \<in> abs_diffs n v1v v2v"
    using assms by (auto simp: abs_diffs_def)
  then have "\<bar>v1v 0 - v2v 0\<bar> \<le> Max (abs_diffs n v1v v2v)"
    by (simp add: finite_abs_diffs)
  then have "0 \<le> Max (abs_diffs n v1v v2v)"
    by (meson abs_ge_zero order_trans)
  then show ?thesis using ne by (simp add: finite_abs_diffs max_def)
qed

lemma kernel_residual:
  fixes v1v v2v :: "int \<Rightarrow> 'a::linordered_idom"
  shows "fst (ComputeResidualKernel n v1v v2v) = Max (insert 0 (abs_diffs n v1v v2v))"
proof (cases "0 \<le> n")
  case True
  then show ?thesis
    unfolding ComputeResidualKernel_def fst_conv residual_loop_Max by simp
next
  case False
  then have "abs_diffs n v1v v2v = {}" by (simp add: abs_diffs_def)
  with False show ?thesis by (simp add: ComputeResidualKernel_def)
qed

lemma allReduce_max_peers:
  fixes S :: "'a::linordered_idom set"
  assumes "finite S"
  shows "fold max (map (\<lambda>(m, a, b). fst (ComputeResidualKernel m a b)) peers) (Max (insert 0 S))
       = Max (insert 0 (S \<union> (\<Union>(m, a, b)\<in>set peers. abs_diffs m a b)))"
  using assms
proof (induction peers arbitrary: S)
  case Nil
  then show ?case by simp
next
  case (Cons q peers)
  obtain m a b where q: "q = (m, a, b)" by (cases q)
  let ?D = "abs_diffs m a b"
  have fin: "finite (S \<union> ?D)" using Cons.prems by (simp add: finite_abs_diffs)
  have "max (Max (insert 0 S)) (Max (insert 0 ?D)) = Max (insert 0 S \<union> insert 0 ?D)"
    using Cons.prems by (subst Max_Un) (simp_all add: finite_abs_diffs)
  also have "insert 0 S \<union> insert 0 ?D = insert 0 (S \<union> ?D)" by auto
  finally have step: "max (Max (insert 0 S)) (Max (insert 0 ?D)) = Max (insert 0 (S \<union> ?D))" .
  have "S \<union> ?D \<union> (\<Union>(m, a, b)\<in>set peers. abs_diffs m a b)
      = S \<union> (\<Union>(m, a, b)\<in>set (q # peers). abs_diffs m a b)"
    by (auto simp: q)
  then show ?case
    using Cons.IH [OF fin] by (simp add: q kernel_residual step max.commute)
qed

text \<open>
  C7. \<open>ComputeResidualKernel\<close> leaves in \<open>residual\<close> the largest \<open>|v1[i] - v2[i]|\<close>
  over \<open>0 \<le> i < n\<close>, zero when there is no such \<open>i\<close>, and returns zero. With the
  max all-reduce over the partitions \<open>peers\<close>, each running the same kernel,
  \<open>ComputeResidual\<close> leaves the largest absolute difference over all partitions, the
  inf-norm of the global difference, and returns zero. Arithmetic is exact.
\<close>

theorem residual_is_inf_norm:
  fixes v1v v2v :: "int \<Rightarrow> 'a::linordered_idom"
  shows "fst (ComputeResidualKernel n v1v v2v) =
           (if n \<le> 0 then 0 else Max (abs_diffs n v1v v2v))
       \<and> snd (ComputeResidualKernel n v1v v2v) = 0
       \<and> fst (ComputeResidual n v1v v2v
                (map (\<lambda>(m, a, b). fst (ComputeResidualKernel m a b)) peers)) =
           Max (insert 0 (\<Union>(m, a, b)\<in>set ((n, v1v, v2v) # peers). abs_diffs m a b))
       \<and> snd (ComputeResidual n v1v v2v others) = 0"
proof -
  have a: "fst (ComputeResidualKernel n v1v v2v) = (if n \<le> 0 then 0 else Max (abs_diffs n v1v v2v))"
  proof (cases "n \<le> 0")
    case True
    then have "abs_diffs n v1v v2v = {}" by (simp add: abs_diffs_def)
    then show ?thesis using True by (simp add: kernel_residual)
  next
    case False
    then show ?thesis by (simp add: kernel_residual Max_insert_zero_abs_diffs)
  qed
  have b: "snd (ComputeResidualKernel n v1v v2v) = 0"
    by (simp add: ComputeResidualKernel_def)
  have c: "fst (ComputeResidual n v1v v2v
                (map (\<lambda>(m, a, b). fst (ComputeResidualKernel m a b)) peers)) =
           Max (insert 0 (\<Union>(m, a, b)\<in>set ((n, v1v, v2v) # peers). abs_diffs m a b))"
    using allReduce_max_peers [OF finite_abs_diffs, of peers n v1v v2v]
    by (simp add: ComputeResidual_def allReduce_max_def kernel_residual)
  have d: "snd (ComputeResidual n v1v v2v others) = 0"
    by (simp add: ComputeResidual_def)
  show ?thesis using a b c d by blast
qed

theorem residual_is_inf_norm_witness:
  "fst (ComputeResidualKernel 3 (\<lambda>i. [1, 5, 2] ! nat i) (\<lambda>i. [2, 1, 2 :: int] ! nat i)) = 4
   \<and> ComputeResidual 3 (\<lambda>i. [1, 5, 2] ! nat i) (\<lambda>i. [2, 1, 2 :: int] ! nat i) [7, 2] = (7, 0)"
  using residual_is_inf_norm [of 3 "\<lambda>i. [1, 5, 2] ! nat i" "\<lambda>i. [2, 1, 2 :: int] ! nat i" "[]" "[7, 2]"]
  by (simp add: ComputeResidualKernel_def ComputeResidual_def allReduce_max_def upt_conv_Cons)

section \<open>Properties of the item constructor\<close>

lemma offsetsAreDense_1:
  "offsetsAreDense (Suc 0) sz lo hi off \<longleftrightarrow> off 0 = int sz"
  by (simp add: offsetsAreDense_def)

text \<open>
  C10. After construction \<open>data()\<close> is \<open>nullptr\<close> whenever the raw accessor gave a
  null pointer, the sub-rectangle it returned is not the requested one, or the layout
  is not dense (for one dimension: the byte offset is not the size of an element);
  otherwise it is the accessor's pointer. A pointer that is not null is therefore one
  for the whole of the requested bounds with a dense layout.
\<close>

theorem Item_data_null_or_valid:
  "data (Item_ctor sz b rr) =
      (if raw_ptr rr = None \<or> subrect rr \<noteq> b \<or>
          \<not> offsetsAreDense 1 sz (\<lambda>_. fst b) (\<lambda>_. snd b) (inOffsets rr)
       then None else raw_ptr rr)
   \<and> (offsetsAreDense 1 sz (\<lambda>_. fst b) (\<lambda>_. snd b) (inOffsets rr) \<longleftrightarrow> inOffsets rr 0 = int sz)
   \<and> (data (Item_ctor sz b rr) \<noteq> None \<longrightarrow>
        data (Item_ctor sz b rr) = raw_ptr rr \<and> subrect rr = b \<and> inOffsets rr 0 = int sz)
   \<and> mLength (Item_ctor sz b rr) = rect_volume b"
  by (simp add: data_def Item_ctor_def Let_def offsetsAreDense_1)

theorem Item_data_null_or_valid_witness:
  "data (Item_ctor 8 (0, 3) \<lparr>raw_ptr = Some (4096::nat), subrect = (0, 3), inOffsets = (\<lambda>_. 8)\<rparr>) = Some 4096
   \<and> data (Item_ctor 8 (0, 3) \<lparr>raw_ptr = Some (4096::nat), subrect = (0, 2), inOffsets = (\<lambda>_. 8)\<rparr>) = None
   \<and> data (Item_ctor 8 (0, 3) \<lparr>raw_ptr = Some (4096::nat), subrect = (0, 3), inOffsets = (\<lambda>_. 16)\<rparr>) = None
   \<and> data (Item_ctor 8 (0, 3) \<lparr>raw_ptr = (None :: nat option), subrect = (0, 3), inOffsets = (\<lambda>_. 8)\<rparr>) = None"
  using Item_data_null_or_valid [of 8 "(0, 3)" "\<lparr>raw_ptr = Some (4096::nat), subrect = (0, 3), inOffsets = (\<lambda>_. 8)\<rparr>"]
        Item_data_null_or_valid [of 8 "(0, 3)" "\<lparr>raw_ptr = Some (4096::nat), subrect = (0, 2), inOffsets = (\<lambda>_. 8)\<rparr>"]
        Item_data_null_or_valid [of 8 "(0, 3)" "\<lparr>raw_ptr = Some (4096::nat), subrect = (0, 3), inOffsets = (\<lambda>_. 16)\<rparr>"]
        Item_data_null_or_valid [of 8 "(0, 3)" "\<lparr>raw_ptr = (None :: nat option), subrect = (0, 3), inOffsets = (\<lambda>_. 8)\<rparr>"]
  by simp

section \<open>Properties of the conjugate-gradient driver\<close>

lemmas cg_step_defs = cg_precondition_def cg_first_direction_def cg_next_direction_def
  cg_update_def cg_iteration_def dot_into_def TICK_def TOCK_def ComputeFuture_def Let_def

text \<open>
  C2. One pass through the loop body, from any state. For \<open>k \<noteq> 1\<close>, with the future
  \<open>rtz_old\<close> left by the pass before: \<open>rtz = dot(r, z)\<close> on the new \<open>z\<close>,
  \<open>beta = rtz / rtz_old\<close>, \<open>p = WAXPBY(1, z, beta, p)\<close>, \<open>Ap = SPMV(p)\<close>,
  \<open>alpha = rtz / dot(p, Ap)\<close> with this pass's \<open>rtz\<close>, \<open>x = WAXPBY(1, x, alpha, p)\<close>,
  \<open>r = WAXPBY(1, r, -alpha, Ap)\<close>. For \<open>k = 1\<close>: \<open>p = WAXPBY(1, z, 0, z)\<close>, which is
  \<open>z\<close> for a WAXPBY that computes \<open>1 * z + 0 * z\<close> as \<open>z\<close>, and \<open>rtz = dot(r, z)\<close>.
  Every pass leaves its own \<open>rtz\<close> in \<open>rtzFuture\<close> for the next one.
\<close>

theorem cg_iteration_dataflow:
  fixes K :: "('a::{zero,one,uminus,inverse}, 'v) cg_kernels" and T :: "'t::{plus,minus} cg_clock"
  shows
  "let zn = (if d then ComputeMG K (r_vec s) (z_vec s) else CopyVector K (r_vec s) (z_vec s));
       rtz = ComputeDotProduct K (r_vec s) zn
   in (k \<noteq> 1 \<and> rtzFuture s = Some rtz_old \<longrightarrow>
        (let b = rtz / rtz_old;
             pn = ComputeWAXPBY K 1 zn b (p_vec s) (p_vec s);
             Apn = ComputeSPMV K pn (Ap_vec s);
             a = rtz / ComputeDotProduct K pn Apn;
             xn = ComputeWAXPBY K 1 (x_vec s) a pn (x_vec s);
             rn = ComputeWAXPBY K 1 (r_vec s) (- a) Apn (r_vec s)
         in \<exists>s'. cg_iteration K T d k s = Inr s' \<and>
              z_vec s' = zn \<and> rtzFuture s' = Some rtz \<and> oldrtzFuture s' = Some rtz_old \<and>
              beta s' = b \<and> p_vec s' = pn \<and> Ap_vec s' = Apn \<and>
              pApFuture s' = Some (ComputeDotProduct K pn Apn) \<and> alpha s' = a \<and>
              x_vec s' = xn \<and> r_vec s' = rn \<and>
              normr s' = fsqrt K (ComputeDotProduct K rn rn) \<and> niters s' = k))
    \<and> (k = 1 \<longrightarrow>
        (let pn = ComputeWAXPBY K 1 zn 0 zn (p_vec s);
             Apn = ComputeSPMV K pn (Ap_vec s);
             a = rtz / ComputeDotProduct K pn Apn;
             xn = ComputeWAXPBY K 1 (x_vec s) a pn (x_vec s);
             rn = ComputeWAXPBY K 1 (r_vec s) (- a) Apn (r_vec s)
         in \<exists>s'. cg_iteration K T d k s = Inr s' \<and>
              z_vec s' = zn \<and> rtzFuture s' = Some rtz \<and> oldrtzFuture s' = oldrtzFuture s \<and>
              beta s' = beta s \<and> p_vec s' = pn \<and>
              ((\<forall>v w. ComputeWAXPBY K 1 v 0 v w = v) \<longrightarrow> p_vec s' = z_vec s') \<and>
              Ap_vec s' = Apn \<and>
              pApFuture s' = Some (ComputeDotProduct K pn Apn) \<and> alpha s' = a \<and>
              x_vec s' = xn \<and> r_vec s' = rn \<and>
              normr s' = fsqrt K (ComputeDotProduct K rn rn) \<and> niters s' = k))"
  by (simp add: cg_step_defs)

theorem cg_iteration_dataflow_witness:
  "(2::int) \<noteq> 1 \<and> rtzFuture ex_state = Some 4
   \<and> (\<exists>s'. cg_iteration ex_kernels ex_clock False 2 ex_state = Inr s' \<and>
          rtzFuture s' = Some 4 \<and> beta s' = 1 \<and> p_vec s' = 5 \<and> alpha s' = 2 / 25 \<and>
          x_vec s' = 7 / 5 \<and> r_vec s' = 6 / 5)
   \<and> (\<exists>s'. cg_iteration ex_kernels ex_clock False 1 ex_state = Inr s' \<and>
          rtzFuture s' = Some 4 \<and> p_vec s' = 2 \<and> p_vec s' = z_vec s')"
proof -
  have r: "rtzFuture ex_state = Some 4" by (simp add: ex_state_def)
  obtain s2 where s2: "cg_iteration ex_kernels ex_clock False 2 ex_state = Inr s2"
      "rtzFuture s2 = Some 4" "beta s2 = 1" "p_vec s2 = 5" "alpha s2 = 2 / 25"
      "x_vec s2 = 7 / 5" "r_vec s2 = 6 / 5"
    using cg_iteration_dataflow [of False ex_kernels ex_state 2 4 ex_clock]
    by (auto simp: ex_state_def ex_kernels_def Let_def)
  obtain s1 where s1: "cg_iteration ex_kernels ex_clock False 1 ex_state = Inr s1"
      "rtzFuture s1 = Some 4" "p_vec s1 = 2" "p_vec s1 = z_vec s1"
    using cg_iteration_dataflow [of False ex_kernels ex_state 1 4 ex_clock]
    by (auto simp: ex_state_def ex_kernels_def Let_def)
  show ?thesis using r s1 s2 by simp
qed

lemma cg_init_state:
  fixes K :: "('a::{zero,one,uminus,inverse}, 'v) cg_kernels" and T :: "'t::{zero,plus,minus} cg_clock"
  shows "\<exists>s0. cg_init K T c = Inr s0 \<and>
           r_vec s0 = ComputeWAXPBY K 1 (b_in c) (- 1)
                        (ComputeSPMV K (CopyVector K (x_in c) (data_p c)) (data_Ap c)) (data_r c) \<and>
           normr s0 = fsqrt K (ComputeDotProduct K (r_vec s0) (r_vec s0)) \<and>
           normr0 s0 = normr s0 \<and> niters s0 = niters_in c"
  by (simp add: cg_init_def cg_entry_def dot_into_def TICK_def TOCK_def ComputeFuture_def Let_def)

lemma cg_iteration_succeeds:
  fixes K :: "('a::{zero,one,uminus,inverse}, 'v) cg_kernels" and T :: "'t::{plus,minus} cg_clock"
  assumes "k = 1 \<or> rtzFuture s \<noteq> None"
  shows "\<exists>s'. cg_iteration K T d k s = Inr s' \<and> rtzFuture s' \<noteq> None \<and> niters s' = k"
  using assms by (auto simp: cg_step_defs)

lemma cg_loop_terminal:
  fixes K :: "('a::{zero,one,uminus,inverse,ord}, 'v) cg_kernels" and T :: "'t::{plus,minus} cg_clock"
  assumes "k = 1 \<or> (1 < k \<and> k \<le> m + 1 \<and> rtzFuture s \<noteq> None \<and> niters s = k - 1)"
  shows "\<exists>s'. cg_loop K T d m tol k s = Inr s' \<and>
           ((s' = s \<and> \<not> cg_continue m tol k s) \<or>
            (k \<le> niters s' \<and> niters s' \<le> m \<and> cg_continue m tol k s)) \<and>
           (\<not> (normr s' / normr0 s' > tol) \<or> niters s' = m \<or> m < 1)"
  using assms
proof (induction K T d m tol k s rule: cg_loop.induct)
  case (1 K T d m tol k s)
  show ?case
  proof (cases "cg_continue m tol k s")
    case False
    then have "cg_loop K T d m tol k s = Inr s"
      by (simp add: cg_loop.simps)
    moreover have "\<not> (normr s / normr0 s > tol) \<or> niters s = m \<or> m < 1"
      using False "1.prems" by (auto simp: cg_continue_def)
    ultimately show ?thesis using False by simp
  next
    case True
    have "k = 1 \<or> rtzFuture s \<noteq> None" using "1.prems" by auto
    from cg_iteration_succeeds [OF this, of K T d]
    obtain s1 where s1: "cg_iteration K T d k s = Inr s1" "rtzFuture s1 \<noteq> None" "niters s1 = k"
      by blast
    have km: "k \<le> m" using True by (simp add: cg_continue_def)
    have k1: "1 \<le> k" using "1.prems" by auto
    have inv: "k + 1 = 1 \<or> (1 < k + 1 \<and> k + 1 \<le> m + 1 \<and> rtzFuture s1 \<noteq> None \<and> niters s1 = k + 1 - 1)"
      using km k1 s1 by simp
    from "1.IH" [OF True s1(1) inv]
    obtain s' where s': "cg_loop K T d m tol (k + 1) s1 = Inr s'"
        "(s' = s1 \<and> \<not> cg_continue m tol (k + 1) s1) \<or>
         (k + 1 \<le> niters s' \<and> niters s' \<le> m \<and> cg_continue m tol (k + 1) s1)"
        "\<not> (normr s' / normr0 s' > tol) \<or> niters s' = m \<or> m < 1"
      by blast
    have "cg_loop K T d m tol k s = Inr s'"
      using True s1(1) s'(1) by (simp add: cg_loop.simps [of K T d m tol k s])
    moreover have "k \<le> niters s' \<and> niters s' \<le> m"
      using s'(2) s1(3) km by auto
    ultimately show ?thesis using True s'(3) by simp
  qed
qed

lemma CG_succeeds:
  fixes K :: "('a::{zero,one,uminus,inverse,ord}, 'v) cg_kernels" and T :: "'t::{zero,plus,minus} cg_clock"
  shows "\<exists>s0 s'. cg_init K T c = Inr s0 \<and>
           cg_loop K T (doPreconditioning_in c) (maxIter_in c) (tolerance_in c) 1 s0 = Inr s' \<and>
           CG K T c = Inr \<lparr> status = 0, final = s', times = store_times T (times_in c) s' \<rparr> \<and>
           ((s' = s0 \<and> \<not> cg_continue (maxIter_in c) (tolerance_in c) 1 s0) \<or>
            (1 \<le> niters s' \<and> niters s' \<le> maxIter_in c \<and>
             cg_continue (maxIter_in c) (tolerance_in c) 1 s0)) \<and>
           (\<not> (normr s' / normr0 s' > tolerance_in c) \<or> niters s' = maxIter_in c \<or> maxIter_in c < 1)"
proof -
  obtain s0 where s0: "cg_init K T c = Inr s0"
    using cg_init_state [of K T c] by blast
  obtain s' where s': "cg_loop K T (doPreconditioning_in c) (maxIter_in c) (tolerance_in c) 1 s0 = Inr s'"
      "(s' = s0 \<and> \<not> cg_continue (maxIter_in c) (tolerance_in c) 1 s0) \<or>
            (1 \<le> niters s' \<and> niters s' \<le> maxIter_in c \<and>
             cg_continue (maxIter_in c) (tolerance_in c) 1 s0)"
      "\<not> (normr s' / normr0 s' > tolerance_in c) \<or> niters s' = maxIter_in c \<or> maxIter_in c < 1"
    using cg_loop_terminal [of 1 "maxIter_in c" s0 K T "doPreconditioning_in c" "tolerance_in c"]
    by blast
  have "CG K T c = Inr \<lparr> status = 0, final = s', times = store_times T (times_in c) s' \<rparr>"
    by (simp add: CG_def s0 s'(1))
  then show ?thesis using s0 s' by blast
qed

text \<open>
  C3 (as the code has it). The loop goes on exactly while \<open>k \<le> maxIter\<close> and
  \<open>normr / normr0 > tolerance\<close> holds; no law of the order is assumed, so it stops
  also when the quotient is unordered. \<open>CG\<close> always returns what the loop, started at
  \<open>k = 1\<close> on the initial state, ends with, with status zero and without a fault: at
  the return \<open>normr / normr0 > tolerance\<close> does not hold, or \<open>maxIter\<close> passes have run
  (\<open>niters = maxIter\<close>), or \<open>maxIter < 1\<close> allowed none. Where \<open>\<le>\<close> is the negation of
  \<open>>\<close> (no unordered values), the loop stops exactly when
  \<open>normr / normr0 \<le> tolerance\<close> or \<open>k > maxIter\<close>.
\<close>

theorem CG_stops_and_returns_zero:
  fixes K :: "('a::{zero,one,uminus,inverse,ord}, 'v) cg_kernels"
    and T :: "'t::{zero,plus,minus} cg_clock"
  shows "(cg_continue maxIter tol k s \<longleftrightarrow> \<not> (\<not> normr s / normr0 s > tol \<or> maxIter < k))
       \<and> cg_loop K T d maxIter tol k s =
           (if \<not> normr s / normr0 s > tol \<or> maxIter < k then Inr s
            else (case cg_iteration K T d k s of
                    Inl e \<Rightarrow> Inl e
                  | Inr s' \<Rightarrow> cg_loop K T d maxIter tol (k + 1) s'))
       \<and> (\<exists>s0 s'. cg_init K T c = Inr s0 \<and>
              cg_loop K T (doPreconditioning_in c) (maxIter_in c) (tolerance_in c) 1 s0 = Inr s' \<and>
              CG K T c = Inr \<lparr> status = 0, final = s', times = store_times T (times_in c) s' \<rparr> \<and>
              (\<not> normr s' / normr0 s' > tolerance_in c \<or>
               niters s' = maxIter_in c \<or> maxIter_in c < 1))
       \<and> ((\<forall>a b :: 'a. a \<le> b \<longleftrightarrow> \<not> a > b) \<longrightarrow>
            (cg_continue maxIter tol k s \<longleftrightarrow> \<not> (normr s / normr0 s \<le> tol \<or> maxIter < k)) \<and>
            (\<exists>res. CG K T c = Inr res \<and> status res = 0 \<and>
               (normr (final res) / normr0 (final res) \<le> tolerance_in c \<or>
                niters (final res) = maxIter_in c \<or> maxIter_in c < 1)))"
proof -
  have a: "cg_continue maxIter tol k s \<longleftrightarrow> \<not> (\<not> normr s / normr0 s > tol \<or> maxIter < k)"
    by (auto simp: cg_continue_def)
  have b: "cg_loop K T d maxIter tol k s =
           (if \<not> normr s / normr0 s > tol \<or> maxIter < k then Inr s
            else (case cg_iteration K T d k s of
                    Inl e \<Rightarrow> Inl e
                  | Inr s' \<Rightarrow> cg_loop K T d maxIter tol (k + 1) s'))"
    by (subst cg_loop.simps) (simp add: a)
  obtain s0 s' where s': "cg_init K T c = Inr s0"
     "cg_loop K T (doPreconditioning_in c) (maxIter_in c) (tolerance_in c) 1 s0 = Inr s'"
     "CG K T c = Inr \<lparr> status = 0, final = s', times = store_times T (times_in c) s' \<rparr>"
     "\<not> (normr s' / normr0 s' > tolerance_in c) \<or> niters s' = maxIter_in c \<or> maxIter_in c < 1"
    using CG_succeeds [of K T c] by blast
  have c: "\<exists>s0 s'. cg_init K T c = Inr s0 \<and>
              cg_loop K T (doPreconditioning_in c) (maxIter_in c) (tolerance_in c) 1 s0 = Inr s' \<and>
              CG K T c = Inr \<lparr> status = 0, final = s', times = store_times T (times_in c) s' \<rparr> \<and>
              (\<not> normr s' / normr0 s' > tolerance_in c \<or>
               niters s' = maxIter_in c \<or> maxIter_in c < 1)"
    using s' by blast
  have d: "(cg_continue maxIter tol k s \<longleftrightarrow> \<not> (normr s / normr0 s \<le> tol \<or> maxIter < k)) \<and>
            (\<exists>res. CG K T c = Inr res \<and> status res = 0 \<and>
               (normr (final res) / normr0 (final res) \<le> tolerance_in c \<or>
                niters (final res) = maxIter_in c \<or> maxIter_in c < 1))"
    if tot: "\<forall>a b :: 'a. a \<le> b \<longleftrightarrow> \<not> a > b"
  proof -
    have "cg_continue maxIter tol k s \<longleftrightarrow> \<not> (normr s / normr0 s \<le> tol \<or> maxIter < k)"
      using a tot by simp
    moreover have "normr s' / normr0 s' \<le> tolerance_in c \<or> niters s' = maxIter_in c \<or> maxIter_in c < 1"
      using s'(4) tot by simp
    ultimately show ?thesis using s'(3) by simp
  qed
  show ?thesis using a b c d by blast
qed

theorem CG_stops_and_returns_zero_witness:
  "(\<forall>a b :: real. a \<le> b \<longleftrightarrow> \<not> a > b)
   \<and> (\<exists>res. CG ex_kernels ex_clock (ex_cg_call 2 50) = Inr res \<and> status res = 0 \<and>
         (normr (final res) / normr0 (final res) \<le> 0 \<or> niters (final res) = 50))"
proof -
  have t: "\<forall>a b :: real. a \<le> b \<longleftrightarrow> \<not> a > b" by auto
  from CG_stops_and_returns_zero [of 50 0 1 ex_state ex_kernels ex_clock True "ex_cg_call 2 50"] t
  have "\<exists>res. CG ex_kernels ex_clock (ex_cg_call 2 50) = Inr res \<and> status res = 0 \<and>
               (normr (final res) / normr0 (final res) \<le> tolerance_in (ex_cg_call 2 50) \<or>
                niters (final res) = maxIter_in (ex_cg_call 2 50) \<or> maxIter_in (ex_cg_call 2 50) < 1)"
    by blast
  then have "\<exists>res. CG ex_kernels ex_clock (ex_cg_call 2 50) = Inr res \<and> status res = 0 \<and>
         (normr (final res) / normr0 (final res) \<le> 0 \<or> niters (final res) = 50)"
    by (simp add: ex_cg_call_def)
  then show ?thesis using t by blast
qed

lemmas flt_simps = zero_flt_def one_flt_def less_eq_flt_def

text \<open>
  With \<open>b = 0\<close> and \<open>x = 0\<close> the initial residual norm is zero and the quotient
  \<open>normr / normr0\<close> is NaN: the loop stops before its first pass although neither
  \<open>normr / normr0 \<le> tolerance\<close> holds nor \<open>k\<close> exceeds \<open>maxIter\<close>, and \<open>CG\<close> returns
  zero with \<open>niters\<close> still the caller's 7.
\<close>

theorem CG_stops_on_NaN_counterexample:
  "\<exists>res. CG fl_kernels ex_clock fl_call = Inr res \<and> status res = 0 \<and>
         normr (final res) = 0 \<and> normr0 (final res) = 0 \<and>
         normr (final res) / normr0 (final res) = NaN \<and>
         \<not> cg_continue (maxIter_in fl_call) (tolerance_in fl_call) 1 (final res) \<and>
         \<not> (normr (final res) / normr0 (final res) \<le> tolerance_in fl_call \<or>
            maxIter_in fl_call < 1) \<and>
         niters (final res) = 7 \<and> maxIter_in fl_call = 50"
proof -
  obtain s0 where s0: "cg_init fl_kernels ex_clock fl_call = Inr s0"
      "normr s0 = 0" "normr0 s0 = 0" "niters s0 = 7"
    using cg_init_state [of fl_kernels ex_clock fl_call]
    by (auto simp: fl_kernels_def fl_call_def flt_simps)
  have q: "normr s0 / normr0 s0 = NaN" by (simp add: s0 flt_simps)
  have stop: "\<not> cg_continue (maxIter_in fl_call) (tolerance_in fl_call) 1 s0"
    by (simp add: cg_continue_def q fl_call_def flt_simps)
  have loop: "cg_loop fl_kernels ex_clock (doPreconditioning_in fl_call) (maxIter_in fl_call)
                (tolerance_in fl_call) 1 s0 = Inr s0"
    using stop by (simp add: cg_loop.simps)
  have cg: "CG fl_kernels ex_clock fl_call =
      Inr \<lparr> status = 0, final = s0, times = store_times ex_clock (times_in fl_call) s0 \<rparr>"
    by (simp add: CG_def s0(1) loop)
  have le: "\<not> (normr s0 / normr0 s0 \<le> tolerance_in fl_call \<or> maxIter_in fl_call < 1)"
    by (simp add: q fl_call_def flt_simps)
  have m: "maxIter_in fl_call = 50" by (simp add: fl_call_def)
  show ?thesis
    unfolding cg using s0(2-) q stop le m by simp
qed

text \<open>
  C9. When the loop body runs zero times, that is when \<open>1 \<le> maxIter\<close> and
  \<open>normr / normr0 > tolerance\<close> do not both hold for the initial residual norm
  (whatever the division and the comparison give, an unordered result included),
  \<open>CG\<close> returns zero, \<open>normr\<close> and \<open>normr0\<close> hold the initial residual norm, and
  \<open>niters\<close> is the value the caller passed in. When the body runs, \<open>niters\<close> is
  between \<open>1\<close> and \<open>maxIter\<close>.
\<close>

theorem CG_zero_iterations_keep_niters:
  fixes K :: "('a::{zero,one,uminus,inverse,ord}, 'v) cg_kernels"
    and T :: "'t::{zero,plus,minus} cg_clock"
  shows
  "let r0 = ComputeWAXPBY K 1 (b_in c) (- 1)
              (ComputeSPMV K (CopyVector K (x_in c) (data_p c)) (data_Ap c)) (data_r c);
       n0 = fsqrt K (ComputeDotProduct K r0 r0)
   in (\<not> (1 \<le> maxIter_in c \<and> n0 / n0 > tolerance_in c) \<longrightarrow>
         (\<exists>res. CG K T c = Inr res \<and> status res = 0 \<and> niters (final res) = niters_in c \<and>
                normr (final res) = n0 \<and> normr0 (final res) = n0))
    \<and> (1 \<le> maxIter_in c \<and> n0 / n0 > tolerance_in c \<longrightarrow>
         (\<exists>res. CG K T c = Inr res \<and> status res = 0 \<and>
                1 \<le> niters (final res) \<and> niters (final res) \<le> maxIter_in c))"
proof -
  obtain s0 s' where s: "cg_init K T c = Inr s0"
      "CG K T c = Inr \<lparr> status = 0, final = s', times = store_times T (times_in c) s' \<rparr>"
      "(s' = s0 \<and> \<not> cg_continue (maxIter_in c) (tolerance_in c) 1 s0) \<or>
            (1 \<le> niters s' \<and> niters s' \<le> maxIter_in c \<and>
             cg_continue (maxIter_in c) (tolerance_in c) 1 s0)"
    using CG_succeeds [of K T c] by blast
  obtain t0 where t0: "cg_init K T c = Inr t0"
      "r_vec t0 = ComputeWAXPBY K 1 (b_in c) (- 1)
                        (ComputeSPMV K (CopyVector K (x_in c) (data_p c)) (data_Ap c)) (data_r c)"
      "normr t0 = fsqrt K (ComputeDotProduct K (r_vec t0) (r_vec t0))"
      "normr0 t0 = normr t0" "niters t0 = niters_in c"
    using cg_init_state [of K T c] by blast
  have eq: "t0 = s0" using s(1) t0(1) by simp
  show ?thesis
    using s(2,3) t0(2-) unfolding eq Let_def cg_continue_def by auto
qed

theorem CG_zero_iterations_keep_niters_witness:
  "(\<exists>res. CG ex_kernels ex_clock (ex_cg_call 0 50) = Inr res \<and> status res = 0 \<and>
          niters (final res) = 7 \<and> normr (final res) = 0 \<and> normr0 (final res) = 0)
   \<and> (\<exists>res. CG ex_kernels ex_clock (ex_cg_call 2 50) = Inr res \<and> status res = 0 \<and>
          1 \<le> niters (final res) \<and> niters (final res) \<le> 50)"
  using CG_zero_iterations_keep_niters [of ex_kernels "ex_cg_call 0 50" ex_clock]
        CG_zero_iterations_keep_niters [of ex_kernels "ex_cg_call 2 50" ex_clock]
  by (simp add: ex_kernels_def ex_cg_call_def Let_def)

lemma computed_fields:
  "computed s = computed s2 \<longleftrightarrow>
     x_vec s = x_vec s2 \<and> r_vec s = r_vec s2 \<and> z_vec s = z_vec s2 \<and> p_vec s = p_vec s2 \<and>
     Ap_vec s = Ap_vec s2 \<and> normr s = normr s2 \<and> normr0 s = normr0 s2 \<and> niters s = niters s2 \<and>
     normrFuture s = normrFuture s2 \<and> pApFuture s = pApFuture s2 \<and> rtzFuture s = rtzFuture s2 \<and>
     oldrtzFuture s = oldrtzFuture s2 \<and> alpha s = alpha s2 \<and> beta s = beta s2"
  by (auto simp: computed_def)

lemma cg_iteration_computed:
  fixes K :: "('a::{zero,one,uminus,inverse}, 'v) cg_kernels"
    and T :: "'t::{plus,minus} cg_clock" and T2 :: "'u::{plus,minus} cg_clock"
  assumes "computed s = computed s2"
  shows "map_sum id computed (cg_iteration K T d k s) = map_sum id computed (cg_iteration K T2 d k s2)"
  using assms unfolding computed_fields
  by (simp add: cg_step_defs computed_def split: option.splits)

lemma cg_continue_computed:
  "computed s = computed s2 \<Longrightarrow> cg_continue m tol k s = cg_continue m tol k s2"
  by (simp add: computed_fields cg_continue_def)

lemma cg_loop_computed:
  fixes K :: "('a::{zero,one,uminus,inverse,ord}, 'v) cg_kernels"
    and T :: "'t::{plus,minus} cg_clock" and T2 :: "'u::{plus,minus} cg_clock"
  assumes "computed s = computed s2"
  shows "map_sum id computed (cg_loop K T d m tol k s) = map_sum id computed (cg_loop K T2 d m tol k s2)"
  using assms
proof (induction K T d m tol k s arbitrary: s2 rule: cg_loop.induct)
  case (1 K T d m tol k s)
  note c = cg_continue_computed [OF "1.prems", of m tol k]
  show ?case
  proof (cases "cg_continue m tol k s")
    case False
    then show ?thesis
      using c "1.prems" by (simp add: cg_loop.simps [of _ _ _ _ _ k])
  next
    case True
    note it = cg_iteration_computed [OF "1.prems", of K T d k T2]
    show ?thesis
    proof (cases "cg_iteration K T d k s")
      case (Inl e)
      then show ?thesis
        using True c it by (auto simp: cg_loop.simps [of _ _ _ _ _ k] split: sum.splits)
    next
      case (Inr s1)
      then obtain s3 where s3: "cg_iteration K T2 d k s2 = Inr s3" "computed s1 = computed s3"
        using it by (cases "cg_iteration K T2 d k s2") auto
      from "1.IH" [OF True Inr s3(2)] show ?thesis
        using True c Inr s3(1) by (simp add: cg_loop.simps [of _ _ _ _ _ k])
    qed
  qed
qed

lemma cg_init_computed:
  fixes K :: "('a::{zero,one,uminus,inverse}, 'v) cg_kernels"
    and T :: "'t::{zero,plus,minus} cg_clock" and T2 :: "'u::{zero,plus,minus} cg_clock"
  assumes "b_in c = b_in c2" "x_in c = x_in c2" "data_r c = data_r c2" "data_z c = data_z c2"
     "data_p c = data_p c2" "data_Ap c = data_Ap c2" "niters_in c = niters_in c2"
     "normr0_in c = normr0_in c2"
  shows "map_sum id computed (cg_init K T c) = map_sum id computed (cg_init K T2 c2)"
  using assms
  by (simp add: cg_init_def cg_entry_def dot_into_def TICK_def TOCK_def ComputeFuture_def Let_def computed_def)

lemma store_times_buckets:
  "store_times T tms s =
     (\<lambda>i. if i = 0 then tms 0 + (mytimer T (ticks s) - t_begin s)
          else if i = 1 then tms 1 + t1 s
          else if i = 2 then tms 2 + t2 s
          else if i = 3 then tms 3 + t3 s
          else if i = 4 then tms 4 + t4 s
          else if i = 5 then tms 5 + t5 s
          else if i = 6 then tms 6 + t6 s
          else tms i)"
  by (rule ext) (simp add: store_times_def Let_def)

text \<open>
  C8. Two runs of \<open>CG\<close> on the same arguments with any two timers \<open>T\<close> and \<open>T2\<close>
  both return zero and agree on everything computed: the vectors, \<open>normr\<close>,
  \<open>normr0\<close>, \<open>niters\<close>, the futures, \<open>alpha\<close> and \<open>beta\<close>. The array \<open>times\<close> changes
  in the entries \<open>0\<close> to \<open>6\<close> only, each by an addition to the value it had; and the
  value it had does not reach the state (\<open>u\<close> is any other content of \<open>times\<close>).
\<close>

theorem CG_timing_is_a_side_effect:
  fixes K :: "('a::{zero,one,uminus,inverse,ord}, 'v) cg_kernels"
    and T T2 :: "'t::{zero,plus,minus} cg_clock"
  shows "\<exists>res res2 res3.
           CG K T c = Inr res \<and> CG K T2 c = Inr res2 \<and>
           status res = 0 \<and> status res2 = 0 \<and>
           computed (final res) = computed (final res2) \<and>
           times res =
             (\<lambda>i. if i = 0
                     then times_in c 0 + (mytimer T (ticks (final res)) - t_begin (final res))
                  else if i = 1 then times_in c 1 + t1 (final res)
                  else if i = 2 then times_in c 2 + t2 (final res)
                  else if i = 3 then times_in c 3 + t3 (final res)
                  else if i = 4 then times_in c 4 + t4 (final res)
                  else if i = 5 then times_in c 5 + t5 (final res)
                  else if i = 6 then times_in c 6 + t6 (final res)
                  else times_in c i) \<and>
           CG K T (c\<lparr>times_in := u\<rparr>) = Inr res3 \<and> final res3 = final res"
proof -
  obtain s0 s' where r1: "cg_init K T c = Inr s0"
      "cg_loop K T (doPreconditioning_in c) (maxIter_in c) (tolerance_in c) 1 s0 = Inr s'"
      "CG K T c = Inr \<lparr> status = 0, final = s', times = store_times T (times_in c) s' \<rparr>"
    using CG_succeeds [of K T c] by blast
  obtain q0 q' where r2: "cg_init K T2 c = Inr q0"
      "cg_loop K T2 (doPreconditioning_in c) (maxIter_in c) (tolerance_in c) 1 q0 = Inr q'"
      "CG K T2 c = Inr \<lparr> status = 0, final = q', times = store_times T2 (times_in c) q' \<rparr>"
    using CG_succeeds [of K T2 c] by blast
  have "map_sum id computed (cg_init K T c) = map_sum id computed (cg_init K T2 c)"
    by (rule cg_init_computed) simp_all
  then have "computed s0 = computed q0" using r1(1) r2(1) by simp
  from cg_loop_computed [OF this, of K T "doPreconditioning_in c" "maxIter_in c" "tolerance_in c" 1 T2]
  have same: "computed s' = computed q'" using r1(2) r2(2) by simp
  have "cg_init K T (c\<lparr>times_in := u\<rparr>) = cg_init K T c"
    by (simp add: cg_init_def cg_entry_def)
  then have r3: "CG K T (c\<lparr>times_in := u\<rparr>) = Inr \<lparr> status = 0, final = s', times = store_times T u s' \<rparr>"
    using r1(1,2) by (simp add: CG_def)
  show ?thesis
    unfolding r1(3) r2(3) r3
    by (rule exI [of _ "\<lparr> status = 0, final = s', times = store_times T (times_in c) s' \<rparr>"],
        rule exI [of _ "\<lparr> status = 0, final = q', times = store_times T2 (times_in c) q' \<rparr>"],
        rule exI [of _ "\<lparr> status = 0, final = s', times = store_times T u s' \<rparr>"])
       (simp add: same store_times_buckets cong: if_cong)
qed

theorem CG_timing_is_a_side_effect_witness:
  "\<exists>res res2. CG ex_kernels ex_clock (ex_cg_call 2 50) = Inr res \<and>
       CG ex_kernels \<lparr> mytimer = (\<lambda>n. 3 * real n + 1), allreduce_time = (\<lambda>n t. t + 1) \<rparr>
          (ex_cg_call 2 50) = Inr res2 \<and>
       computed (final res) = computed (final res2) \<and> times res 7 = 0"
  using CG_timing_is_a_side_effect [of ex_kernels ex_clock "ex_cg_call 2 50"
          "\<lparr> mytimer = (\<lambda>n. 3 * real n + 1), allreduce_time = (\<lambda>n t. t + 1) \<rparr>" "\<lambda>i. 0"]
  by (auto simp: ex_cg_call_def)

end
